theory Spec2Isabelle
  imports Main "HOL-Library.Word"
begin

section \<open>JavaScript strings and truthiness\<close>

text \<open>
  A JavaScript string is a sequence of UTF-16 code units: \<open>length\<close> and \<open>slice\<close> count
  code units. A string literal of the source is written \<open>lit ''...''\<close>. An optional
  string (\<open>string | undefined\<close>, \<open>string | null\<close>) is a \<open>js_string option\<close>; it is
  truthy when it is present and not empty.
\<close>

type_synonym js_string = "16 word list"

definition lit :: "string \<Rightarrow> js_string" where
  "lit s = map of_char s"

definition truthy :: "js_string option \<Rightarrow> bool" where
  "truthy v = (case v of None \<Rightarrow> False | Some s \<Rightarrow> s \<noteq> [])"

section \<open>utils/chatEventBus.ts: the event bus\<close>

datatype ChatEventType =
    conversation_created
  | conversation_updated
  | conversation_deleted
  | message_sent
  | force_refresh

text \<open>The key of the listener map: an event type, or \<open>'*'\<close> for all events.\<close>

datatype topic = On ChatEventType | Star

text \<open>
  \<open>ChatEvent\<close>. \<open>data\<close> is of type \<open>any\<close>: the type parameter. \<open>timestamp\<close> is a
  number, the milliseconds of \<open>Date.now()\<close>: an integer.
\<close>

record 'd ChatEvent =
  type :: ChatEventType
  conversationId :: "js_string option"
  data :: "'d option"
  timestamp :: int
  userId :: "js_string option"

subsection \<open>Function objects and the environment's listener lists\<close>

text \<open>
  \<open>removeEventListener\<close> finds a listener by the identity of its function object, so
  function objects live in a store, addressed by their index. An instance property
  initialised with an arrow function is one object per instance; \<open>f.bind(this)\<close>
  allocates a new function object on every call.
\<close>

datatype handler = HandleStorageEvent | HandleWindowFocus | HandleVisibilityChange

type_synonym fn_ref = nat

datatype function_object = Arrow handler | Bound fn_ref

datatype event_target = Window | Document

record browser =
  fn_objects :: "function_object list"
  event_listeners :: "(event_target \<times> js_string \<times> fn_ref) list"

definition alloc :: "function_object \<Rightarrow> browser \<Rightarrow> fn_ref \<times> browser" where
  "alloc f b = (length (fn_objects b), b\<lparr>fn_objects := fn_objects b @ [f]\<rparr>)"

text \<open>
  \<open>addEventListener\<close> appends the listener unless the target already has the same
  function for the same event; \<open>removeEventListener\<close> removes the entry with that
  function and does nothing when there is none.
\<close>

definition addEventListener ::
  "event_target \<Rightarrow> js_string \<Rightarrow> fn_ref \<Rightarrow> browser \<Rightarrow> browser" where
  "addEventListener tgt ty f b =
     (if (tgt, ty, f) \<in> set (event_listeners b) then b
      else b\<lparr>event_listeners := event_listeners b @ [(tgt, ty, f)]\<rparr>)"

definition removeEventListener ::
  "event_target \<Rightarrow> js_string \<Rightarrow> fn_ref \<Rightarrow> browser \<Rightarrow> browser" where
  "removeEventListener tgt ty f b =
     b\<lparr>event_listeners := filter (\<lambda>l. l \<noteq> (tgt, ty, f)) (event_listeners b)\<rparr>"

subsection \<open>The bus\<close>

text \<open>
  The part of a \<open>StorageEvent\<close> the bus reads. \<open>key\<close> and \<open>newValue\<close> are
  \<open>string | null\<close>.
\<close>

record StorageEvent =
  key :: "js_string option"
  newValue :: "js_string option"

text \<open>
  The fields of a \<open>ChatEventBus\<close> instance. A callback is a function reference
  (\<open>'cb\<close>): \<open>indexOf\<close> compares references, so two registrations of the same
  function are equal and two closures with the same code are not. \<open>listeners\<close> is
  the \<open>Map\<close> from topic to the array of callbacks. The three handlers are arrow
  functions stored in instance properties: each field holds the address of its
  function object.
\<close>

record 'cb ChatEventBus =
  listeners :: "topic \<Rightarrow> 'cb list option"
  lastEventTimestamp :: int
  handleStorageEvent_ref :: fn_ref
  handleWindowFocus_ref :: fn_ref
  handleVisibilityChange_ref :: fn_ref

text \<open>\<open>this.listeners.get(k) || []\<close>\<close>

definition get_or_empty :: "'cb ChatEventBus \<Rightarrow> topic \<Rightarrow> 'cb list" where
  "get_or_empty bus k = (case listeners bus k of None \<Rightarrow> [] | Some ls \<Rightarrow> ls)"

text \<open>
  \<open>notifyListeners\<close> calls the listeners of the event's type, then the \<open>'*'\<close>
  listeners, each inside its own \<open>try\<close>: a listener that throws does not stop the
  loop. The result is the list of calls made, in order.
\<close>

definition notifyListeners ::
  "'cb ChatEventBus \<Rightarrow> 'd ChatEvent \<Rightarrow> ('cb \<times> 'd ChatEvent) list" where
  "notifyListeners bus event =
     (let typeListeners = get_or_empty bus (On (type event));
          allListeners = get_or_empty bus Star;
          allEventListeners = typeListeners @ allListeners
      in map (\<lambda>listener. (listener, event)) allEventListeners)"

text \<open>
  \<open>handleStorageEvent\<close>. \<open>JSON_parse\<close> stands for \<open>JSON.parse\<close> read at the type
  \<open>ChatEvent\<close> the source gives its result: \<open>None\<close> when it throws, which the
  \<open>catch\<close> logs and drops. The result is the bus afterwards and the listener calls made.
\<close>

definition handleStorageEvent ::
  "(js_string \<Rightarrow> 'd ChatEvent option) \<Rightarrow> StorageEvent \<Rightarrow> 'cb ChatEventBus
     \<Rightarrow> 'cb ChatEventBus \<times> ('cb \<times> 'd ChatEvent) list" where
  "handleStorageEvent JSON_parse e bus =
     (if key e = Some (lit ''chat_event'') \<and> truthy (newValue e) then
        (case newValue e of
           None \<Rightarrow> (bus, [])
         | Some v \<Rightarrow>
             (case JSON_parse v of
                None \<Rightarrow> (bus, [])
              | Some event \<Rightarrow>
                  if timestamp event \<le> lastEventTimestamp bus then (bus, [])
                  else
                    (let bus' = bus\<lparr>lastEventTimestamp := timestamp event\<rparr>
                     in (bus', notifyListeners bus' event))))
      else (bus, []))"

text \<open>A sequence of storage events delivered to one instance, in arrival order.\<close>

fun deliver ::
  "(js_string \<Rightarrow> 'd ChatEvent option) \<Rightarrow> 'cb ChatEventBus \<Rightarrow> StorageEvent list
     \<Rightarrow> 'cb ChatEventBus \<times> ('cb \<times> 'd ChatEvent) list" where
  "deliver JSON_parse bus [] = (bus, [])"
| "deliver JSON_parse bus (e # es) =
     (let (bus1, calls1) = handleStorageEvent JSON_parse e bus;
          (bus2, calls2) = deliver JSON_parse bus1 es
      in (bus2, calls1 @ calls2))"

text \<open>
  The constructor. The instance properties are initialised first (three arrow
  functions); where \<open>window\<close> exists, the constructor registers
  \<open>this.handleStorageEvent.bind(this)\<close> and the two other bound functions.
  \<open>has_window\<close> is \<open>typeof window !== 'undefined'\<close>.
\<close>

definition constructor :: "bool \<Rightarrow> browser \<Rightarrow> 'cb ChatEventBus \<times> browser" where
  "constructor has_window b0 =
     (let (hs, b1) = alloc (Arrow HandleStorageEvent) b0;
          (hf, b2) = alloc (Arrow HandleWindowFocus) b1;
          (hv, b3) = alloc (Arrow HandleVisibilityChange) b2;
          this = \<lparr>listeners = Map.empty, lastEventTimestamp = 0,
                  handleStorageEvent_ref = hs, handleWindowFocus_ref = hf,
                  handleVisibilityChange_ref = hv\<rparr>
      in if has_window then
           (let (bs, b4) = alloc (Bound (handleStorageEvent_ref this)) b3;
                b5 = addEventListener Window (lit ''storage'') bs b4;
                (bf, b6) = alloc (Bound (handleWindowFocus_ref this)) b5;
                b7 = addEventListener Window (lit ''focus'') bf b6;
                (bv, b8) = alloc (Bound (handleVisibilityChange_ref this)) b7;
                b9 = addEventListener Document (lit ''visibilitychange'') bv b8
            in (this, b9))
         else (this, b3))"

text \<open>\<open>destroy\<close> passes the instance properties themselves to \<open>removeEventListener\<close>.\<close>

definition destroy ::
  "bool \<Rightarrow> 'cb ChatEventBus \<Rightarrow> browser \<Rightarrow> 'cb ChatEventBus \<times> browser" where
  "destroy has_window this b =
     (let b' =
        (if has_window then
           (let b1 = removeEventListener Window (lit ''storage'') (handleStorageEvent_ref this) b;
                b2 = removeEventListener Window (lit ''focus'') (handleWindowFocus_ref this) b1
            in removeEventListener Document (lit ''visibilitychange'')
                 (handleVisibilityChange_ref this) b2)
         else b)
      in (this\<lparr>listeners := Map.empty\<rparr>, b'))"

text \<open>
  \<open>indexOf\<close> gives the position of the first element identical to \<open>x\<close>, or \<open>-1\<close>;
  \<open>xs.splice(index, 1)\<close> removes the element at \<open>index\<close>.
\<close>

fun indexOf :: "'a list \<Rightarrow> 'a \<Rightarrow> int" where
  "indexOf [] x = - 1"
| "indexOf (y # ys) x =
     (if y = x then 0
      else (let i = indexOf ys x in if i > - 1 then i + 1 else - 1))"

definition splice1 :: "'a list \<Rightarrow> nat \<Rightarrow> 'a list" where
  "splice1 xs index = take index xs @ drop (Suc index) xs"

text \<open>The function \<open>subscribe\<close> returns: it closes over \<open>eventType\<close> and \<open>callback\<close>.\<close>

definition unsubscribe :: "topic \<Rightarrow> 'cb \<Rightarrow> 'cb ChatEventBus \<Rightarrow> 'cb ChatEventBus" where
  "unsubscribe eventType callback bus =
     (let ls = get_or_empty bus eventType;
          index = indexOf ls callback
      in if index > - 1
         then bus\<lparr>listeners := (listeners bus)(eventType \<mapsto> splice1 ls (nat index))\<rparr>
         else bus)"

definition subscribe ::
  "topic \<Rightarrow> 'cb \<Rightarrow> 'cb ChatEventBus
     \<Rightarrow> ('cb ChatEventBus \<Rightarrow> 'cb ChatEventBus) \<times> 'cb ChatEventBus" where
  "subscribe eventType callback bus =
     (let bus1 = (if listeners bus eventType = None
                  then bus\<lparr>listeners := (listeners bus)(eventType \<mapsto> [])\<rparr> else bus);
          bus2 = bus1\<lparr>listeners :=
                   (listeners bus1)(eventType \<mapsto> get_or_empty bus1 eventType @ [callback])\<rparr>
      in (unsubscribe eventType callback, bus2))"

text \<open>
  \<open>getCurrentUserId\<close>. \<open>decode_sub\<close> stands for
  \<open>JSON.parse(atob(token.split('.')[1])).sub\<close>: \<open>None\<close> when it throws or the claim is
  missing. The result is never the empty string: \<open>payload.sub || null\<close>.
\<close>

definition getCurrentUserId ::
  "(js_string \<Rightarrow> js_string option) \<Rightarrow> bool \<Rightarrow> js_string option \<Rightarrow> js_string option" where
  "getCurrentUserId decode_sub has_window token =
     (if \<not> has_window then None
      else (case token of
              None \<Rightarrow> None
            | Some t \<Rightarrow>
                if t = [] then None
                else (case decode_sub t of
                        None \<Rightarrow> None
                      | Some sub \<Rightarrow> if sub = [] then None else Some sub)))"

section \<open>hooks/useChatSync.ts: the sync hook\<close>

text \<open>
  The options of \<open>useChatSync\<close>: for each optional callback, whether it was given.
  A call of a callback of the options is recorded with its arguments.
\<close>

record UseChatSyncOptions =
  onConversationCreated :: bool
  onConversationUpdated :: bool
  onConversationDeleted :: bool
  onMessageSent :: bool
  onForceRefresh :: bool

datatype 'd callback_call =
    Call_onConversationCreated js_string "'d option"
  | Call_onConversationUpdated js_string "'d option"
  | Call_onConversationDeleted js_string
  | Call_onMessageSent js_string "'d option"
  | Call_onForceRefresh

text \<open>The five closures the subscription effect hands to \<open>chatEventBus.subscribe\<close>.\<close>

datatype sync_listener =
    created_listener
  | updated_listener
  | deleted_listener
  | message_listener
  | refresh_listener

definition shouldHandleEvent :: "js_string option \<Rightarrow> js_string option \<Rightarrow> bool" where
  "shouldHandleEvent currentUserId uid = (\<not> truthy uid \<or> uid \<noteq> currentUserId)"

text \<open>The body of each closure: the calls of the options' callbacks it makes.\<close>

fun listener_body ::
  "js_string option \<Rightarrow> sync_listener \<Rightarrow> 'd ChatEvent \<Rightarrow> 'd callback_call list" where
  "listener_body currentUserId created_listener event =
     (case conversationId event of
        Some c \<Rightarrow>
          if shouldHandleEvent currentUserId (userId event) \<and> truthy (conversationId event)
          then [Call_onConversationCreated c (data event)] else []
      | None \<Rightarrow> [])"
| "listener_body currentUserId updated_listener event =
     (case conversationId event of
        Some c \<Rightarrow>
          if shouldHandleEvent currentUserId (userId event) \<and> truthy (conversationId event)
          then [Call_onConversationUpdated c (data event)] else []
      | None \<Rightarrow> [])"
| "listener_body currentUserId deleted_listener event =
     (case conversationId event of
        Some c \<Rightarrow>
          if shouldHandleEvent currentUserId (userId event) \<and> truthy (conversationId event)
          then [Call_onConversationDeleted c] else []
      | None \<Rightarrow> [])"
| "listener_body currentUserId message_listener event =
     (case conversationId event of
        Some c \<Rightarrow>
          if shouldHandleEvent currentUserId (userId event) \<and> truthy (conversationId event)
          then [Call_onMessageSent c (data event)] else []
      | None \<Rightarrow> [])"
| "listener_body currentUserId refresh_listener event =
     (if shouldHandleEvent currentUserId (userId event) then [Call_onForceRefresh] else [])"

text \<open>
  The subscription effect: one \<open>subscribe\<close> for each callback that was given, in the
  source's order. It returns the unsubscribers (the cleanup calls each of them) and the
  bus afterwards.
\<close>

definition subscribe_if ::
  "bool \<Rightarrow> ChatEventType \<Rightarrow> sync_listener
     \<Rightarrow> (sync_listener ChatEventBus \<Rightarrow> sync_listener ChatEventBus) list
          \<times> sync_listener ChatEventBus
     \<Rightarrow> (sync_listener ChatEventBus \<Rightarrow> sync_listener ChatEventBus) list
          \<times> sync_listener ChatEventBus" where
  "subscribe_if given ty l st =
     (if given
      then (let (unsub, bus') = subscribe (On ty) l (snd st) in (fst st @ [unsub], bus'))
      else st)"

definition subscription_effect ::
  "UseChatSyncOptions \<Rightarrow> sync_listener ChatEventBus
     \<Rightarrow> (sync_listener ChatEventBus \<Rightarrow> sync_listener ChatEventBus) list
          \<times> sync_listener ChatEventBus" where
  "subscription_effect options bus =
     subscribe_if (onForceRefresh options) force_refresh refresh_listener
       (subscribe_if (onMessageSent options) message_sent message_listener
         (subscribe_if (onConversationDeleted options) conversation_deleted deleted_listener
           (subscribe_if (onConversationUpdated options) conversation_updated updated_listener
             (subscribe_if (onConversationCreated options) conversation_created
                created_listener ([], bus)))))"

text \<open>
  The cleanup of the effect: \<open>unsubscribers.forEach(unsubscribe => unsubscribe())\<close>.
  The effect runs again, after its cleanup, whenever \<open>currentUserId\<close> or one of the
  callbacks changes.
\<close>

definition cleanup ::
  "(sync_listener ChatEventBus \<Rightarrow> sync_listener ChatEventBus) list
     \<Rightarrow> sync_listener ChatEventBus \<Rightarrow> sync_listener ChatEventBus" where
  "cleanup unsubscribers bus = fold (\<lambda>unsubscribe b. unsubscribe b) unsubscribers bus"

text \<open>
  What the hook does with an event the bus dispatches: the bus calls the subscribed
  closures, and each closure runs its body.
\<close>

definition callbacks_invoked ::
  "js_string option \<Rightarrow> sync_listener ChatEventBus \<Rightarrow> 'd ChatEvent \<Rightarrow> 'd callback_call list" where
  "callbacks_invoked currentUserId bus event =
     concat (map (\<lambda>(l, ev). listener_body currentUserId l ev) (notifyListeners bus event))"

section \<open>services/chats.ts: the chat service\<close>

subsection \<open>Types\<close>

text \<open>
  A value of type \<open>any\<close> or \<open>Record<string, any>\<close> that came from JSON. Field names
  that two records share, or that HOL already uses (\<open>id\<close>), carry a prefix.
\<close>

datatype json =
    JNull
  | JBool bool
  | JNum int
  | JStr js_string
  | JArr "json list"
  | JObj "(js_string \<times> json) list"

fun json_truthy :: "json \<Rightarrow> bool" where
  "json_truthy JNull = False"
| "json_truthy (JBool b) = b"
| "json_truthy (JNum n) = (n \<noteq> 0)"
| "json_truthy (JStr s) = (s \<noteq> [])"
| "json_truthy (JArr xs) = True"
| "json_truthy (JObj kvs) = True"

record Conversation =
  conv_id :: js_string
  title :: js_string
  first_message :: js_string
  last_activity :: js_string
  message_count :: int
  is_archived :: bool
  created_at :: js_string

record ChatResponse =
  response :: js_string
  r_intent :: "js_string option"
  r_data :: "json option"
  action_taken :: "js_string option"
  suggestions :: "js_string list option"
  conversation_id :: "js_string option"
  message_id :: "js_string option"
  r_blocks :: "json option"
  attachment_processed :: "bool option"

text \<open>
  A thrown value: \<open>error.response?.data?.detail\<close> (present on some HTTP errors) and
  \<open>error.message\<close>. \<open>new Error(m)\<close> has the message \<open>m\<close> and no response.
\<close>

record js_error =
  response_data_detail :: "js_string option"
  message :: js_string

definition new_Error :: "js_string \<Rightarrow> js_error" where
  "new_Error m = \<lparr>response_data_detail = None, message = m\<rparr>"

text \<open>The \<open>updates\<close> argument of \<open>updateConversation\<close>.\<close>

record conversation_updates =
  u_title :: "js_string option"
  u_is_archived :: "bool option"

text \<open>A \<open>File\<close> is stood for by its name.\<close>

type_synonym File = js_string

subsection \<open>Effects: REST requests and bus events\<close>

text \<open>
  The requests the service sends through \<open>api\<close>, with the conversation id of the URL
  and the body, and the events it hands to \<open>chatEventBus\<close>: the arguments of
  \<open>broadcast(type, conversationId, data, userId)\<close>. An operation appends its effects to
  the trace in the order it performs them.
\<close>

datatype request =
    POST_conversations js_string js_string
  | POST_messages js_string js_string "json option" "json option"
  | POST_messages_form js_string js_string "File list"
  | PUT_conversation js_string conversation_updates
  | GET_conversation js_string
  | DELETE_conversation js_string

datatype payload =
    Conversation_data Conversation
  | Message_data js_string js_string
  | Updates_data conversation_updates

datatype effect =
    Rest request
  | Broadcast ChatEventType "js_string option" "payload option" "js_string option"

fun is_rest :: "effect \<Rightarrow> bool" where
  "is_rest (Rest r) = True"
| "is_rest (Broadcast ty c d u) = False"

definition rest_count :: "effect list \<Rightarrow> nat" where
  "rest_count tr = length (filter is_rest tr)"

text \<open>
  The backend behind \<open>api\<close> (services/api.ts and the server): what each request
  returns, \<open>Inl\<close> when the promise rejects. The first argument is the number of
  requests sent before, so that the same request can succeed once and fail later.
\<close>

record backend =
  post_conversations :: "nat \<Rightarrow> js_string \<Rightarrow> js_string \<Rightarrow> js_error + Conversation"
  post_messages ::
    "nat \<Rightarrow> js_string \<Rightarrow> js_string \<Rightarrow> json option \<Rightarrow> json option \<Rightarrow> js_error + ChatResponse"
  post_messages_form :: "nat \<Rightarrow> js_string \<Rightarrow> js_string \<Rightarrow> File list \<Rightarrow> js_error + ChatResponse"
  put_conversation :: "nat \<Rightarrow> js_string \<Rightarrow> conversation_updates \<Rightarrow> js_error + unit"
  get_conversation :: "nat \<Rightarrow> js_string \<Rightarrow> js_error + Conversation"
  delete_conversation :: "nat \<Rightarrow> js_string \<Rightarrow> js_error + unit"

subsection \<open>Operations\<close>

text \<open>
  Each operation takes the backend, \<open>userId'\<close> (the value of
  \<open>getCurrentUserId() ?? undefined\<close>), its arguments and the trace so far, and returns
  its result (\<open>Inl\<close> when it throws) and the trace afterwards. A variable whose name
  is also a field name is primed.
\<close>

definition createConversation ::
  "backend \<Rightarrow> js_string option \<Rightarrow> js_string \<Rightarrow> js_string \<Rightarrow> effect list
     \<Rightarrow> (js_error + Conversation) \<times> effect list" where
  "createConversation api userId' title' firstMessage tr =
     (let tr1 = tr @ [Rest (POST_conversations title' firstMessage)]
      in case post_conversations api (rest_count tr) title' firstMessage of
           Inr data' \<Rightarrow>
             (Inr data',
              tr1 @ [Broadcast conversation_created (Some (conv_id data'))
                       (Some (Conversation_data data')) userId'])
         | Inl error' \<Rightarrow> (Inl error', tr1))"

definition sendMessageToConversation ::
  "backend \<Rightarrow> js_string option \<Rightarrow> js_string \<Rightarrow> js_string \<Rightarrow> json option \<Rightarrow> json option
     \<Rightarrow> effect list \<Rightarrow> (js_error + ChatResponse) \<times> effect list" where
  "sendMessageToConversation api userId' conversationId' message' context attachments tr =
     (let tr1 = tr @ [Rest (POST_messages conversationId' message' context attachments)]
      in case post_messages api (rest_count tr) conversationId' message' context attachments of
           Inr data' \<Rightarrow>
             (Inr data',
              tr1 @ [Broadcast message_sent (Some conversationId')
                       (Some (Message_data message' (response data'))) userId'])
         | Inl error' \<Rightarrow> (Inl error', tr1))"

text \<open>
  The block that \<open>sendMessageWithFiles\<close> (lines 185 to 196) and \<open>sendMessage\<close> (lines
  359 to 365) both start with: when \<open>!conversationId || conversationId === 'new'\<close>, create
  a conversation and continue with its id. The result is the \<open>conversationId\<close> to
  continue with, or the error \<open>createConversation\<close> threw.
\<close>

definition create_if_new ::
  "backend \<Rightarrow> js_string option \<Rightarrow> js_string \<Rightarrow> js_string option \<Rightarrow> effect list
     \<Rightarrow> (js_error + js_string option) \<times> effect list" where
  "create_if_new api userId' message' conversationId' tr =
     (if \<not> truthy conversationId' \<or> conversationId' = Some (lit ''new'') then
        (case createConversation api userId'
                (take 50 message' @ (if length message' > 50 then lit ''...'' else []))
                message' tr of
           (Inr newConversation, tr1) \<Rightarrow> (Inr (Some (conv_id newConversation)), tr1)
         | (Inl error', tr1) \<Rightarrow> (Inl error', tr1))
      else (Inr conversationId', tr))"

text \<open>An optional string inside a template literal or passed where a string is declared.\<close>

definition as_string :: "js_string option \<Rightarrow> js_string" where
  "as_string v = (case v of None \<Rightarrow> lit ''undefined'' | Some s \<Rightarrow> s)"

text \<open>
  \<open>error.response?.data?.detail || error.message || 'File processing failed'\<close>
\<close>

definition file_error_message :: "js_error \<Rightarrow> js_string" where
  "file_error_message error' =
     (if truthy (response_data_detail error') then as_string (response_data_detail error')
      else if message error' \<noteq> [] then message error'
      else lit ''File processing failed'')"

definition sendMessageWithFiles ::
  "backend \<Rightarrow> js_string option \<Rightarrow> js_string \<Rightarrow> File list \<Rightarrow> js_string option \<Rightarrow> effect list
     \<Rightarrow> (js_error + ChatResponse) \<times> effect list" where
  "sendMessageWithFiles api userId' message' files conversationId' tr =
     (case create_if_new api userId' message' conversationId' tr of
        (Inl error', tr1) \<Rightarrow> (Inl error', tr1)
      | (Inr conversationId'', tr1) \<Rightarrow>
          (let tr2 = tr1 @ [Rest (POST_messages_form (as_string conversationId'') message' files)]
           in case post_messages_form api (rest_count tr1) (as_string conversationId'')
                     message' files of
                Inr data' \<Rightarrow>
                  (Inr data',
                   tr2 @ [Broadcast message_sent conversationId''
                            (Some (Message_data message' (response data'))) userId'])
              | Inl error' \<Rightarrow> (Inl (new_Error (file_error_message error')), tr2)))"

definition sendMessage ::
  "backend \<Rightarrow> js_string option \<Rightarrow> js_string \<Rightarrow> js_string option \<Rightarrow> json option \<Rightarrow> effect list
     \<Rightarrow> (js_error + ChatResponse) \<times> effect list" where
  "sendMessage api userId' message' conversationId' context tr =
     (case create_if_new api userId' message' conversationId' tr of
        (Inl error', tr1) \<Rightarrow> (Inl error', tr1)
      | (Inr conversationId'', tr1) \<Rightarrow>
          sendMessageToConversation api userId' (as_string conversationId'') message' context
            None tr1)"

definition updateConversation ::
  "backend \<Rightarrow> js_string option \<Rightarrow> js_string \<Rightarrow> conversation_updates \<Rightarrow> effect list
     \<Rightarrow> (js_error + Conversation) \<times> effect list" where
  "updateConversation api userId' conversationId' updates tr =
     (let tr1 = tr @ [Rest (PUT_conversation conversationId' updates)]
      in case put_conversation api (rest_count tr) conversationId' updates of
           Inl error' \<Rightarrow> (Inl error', tr1)
         | Inr u \<Rightarrow>
             (let tr2 = tr1 @ [Rest (GET_conversation conversationId')]
              in case get_conversation api (rest_count tr1) conversationId' of
                   Inl error' \<Rightarrow> (Inl error', tr2)
                 | Inr data' \<Rightarrow>
                     (Inr data',
                      tr2 @ [Broadcast conversation_updated (Some conversationId')
                               (Some (Updates_data updates)) userId'])))"

definition deleteConversation ::
  "backend \<Rightarrow> js_string option \<Rightarrow> js_string \<Rightarrow> effect list
     \<Rightarrow> (js_error + unit) \<times> effect list" where
  "deleteConversation api userId' conversationId' tr =
     (let tr1 = tr @ [Rest (DELETE_conversation conversationId')]
      in case delete_conversation api (rest_count tr) conversationId' of
           Inr u \<Rightarrow>
             (Inr (),
              tr1 @ [Broadcast conversation_deleted (Some conversationId') None userId'])
         | Inl error' \<Rightarrow> (Inl error', tr1))"

subsection \<open>Messages and the display transform\<close>

text \<open>
  \<open>rating?: number | null\<close> is \<open>None\<close> when undefined, \<open>Some None\<close> when null. The
  fields of \<open>DisplayMessage\<close> that a \<open>Message\<close> or a \<open>ChatEvent\<close> also has carry
  the prefix \<open>d_\<close>.
\<close>

datatype message_type = USER | ASSISTANT

record Message =
  m_id :: js_string
  m_conversation_id :: js_string
  message_type :: message_type
  content :: js_string
  intent :: "js_string option"
  context_data :: "json option"
  response_data :: "json option"
  processing_time_ms :: "int option"
  m_created_at :: js_string
  rating :: "int option option"
  rated_at :: "js_string option option"

datatype role = user | assistant

record DisplayMessage =
  role :: role
  d_content :: js_string
  blocks :: "json option"
  d_response_data :: "json option"
  d_intent :: "js_string option"
  d_id :: "js_string option"
  d_timestamp :: "js_string option"
  d_rating :: "int option option"

text \<open>\<open>msg.response_data?.blocks\<close>\<close>

definition response_data_blocks :: "json option \<Rightarrow> json option" where
  "response_data_blocks rd =
     (case rd of Some (JObj kvs) \<Rightarrow> map_of kvs (lit ''blocks'') | _ \<Rightarrow> None)"

text \<open>The callback of \<open>messages.map\<close>: the object literal it returns for \<open>msg\<close>.\<close>

definition displayMessage :: "Message \<Rightarrow> DisplayMessage" where
  "displayMessage msg =
     (let role' = (if message_type msg = USER then user else assistant)
      in \<lparr>role = role',
          d_content = content msg,
          blocks =
            (if role' = assistant
                \<and> (case response_data_blocks (response_data msg) of
                      Some b \<Rightarrow> json_truthy b
                    | None \<Rightarrow> False)
             then response_data_blocks (response_data msg) else None),
          d_response_data = response_data msg,
          d_intent = intent msg,
          d_id = Some (m_id msg),
          d_timestamp = Some (m_created_at msg),
          d_rating = rating msg\<rparr>)"

text \<open>
  To say what the transform writes, the arrays and objects live in a store: a list of
  cells, an object's address being its index. An array holds the addresses of its
  elements. \<open>messages.map(f)\<close> allocates the result array, and for each element in
  order calls \<open>f\<close>, which reads the message and allocates the object it returns,
  and appends the result to the new array. The model returns \<open>None\<close> where the store
  does not hold an array of messages at the address given.
\<close>

datatype cell =
    Message_cell Message
  | Display_cell DisplayMessage
  | Array_cell "nat list"

type_synonym store = "cell list"

definition lookup :: "store \<Rightarrow> nat \<Rightarrow> cell option" where
  "lookup s a = (if a < length s then Some (s ! a) else None)"

definition new_cell :: "cell \<Rightarrow> store \<Rightarrow> nat \<times> store" where
  "new_cell c s = (length s, s @ [c])"

definition array_push :: "nat \<Rightarrow> nat \<Rightarrow> store \<Rightarrow> store" where
  "array_push arr x s =
     (case lookup s arr of
        Some (Array_cell xs) \<Rightarrow> s[arr := Array_cell (xs @ [x])]
      | _ \<Rightarrow> s)"

fun map_callback :: "nat list \<Rightarrow> nat \<Rightarrow> store \<Rightarrow> store option" where
  "map_callback [] out s = Some s"
| "map_callback (a # as) out s =
     (case lookup s a of
        Some (Message_cell msg) \<Rightarrow>
          (let (d, s1) = new_cell (Display_cell (displayMessage msg)) s
           in map_callback as out (array_push out d s1))
      | _ \<Rightarrow> None)"

definition transformMessagesToDisplay :: "nat \<Rightarrow> store \<Rightarrow> (nat \<times> store) option" where
  "transformMessagesToDisplay messages' s =
     (case lookup s messages' of
        Some (Array_cell as) \<Rightarrow>
          (let (out, s1) = new_cell (Array_cell []) s
           in case map_callback as out s1 of
                Some s2 \<Rightarrow> Some (out, s2)
              | None \<Rightarrow> None)
      | _ \<Rightarrow> None)"

text \<open>
  The value of an array of messages, and of an array of display messages, read through
  the store: what a deep comparison looks at.
\<close>

definition message_at :: "store \<Rightarrow> nat \<Rightarrow> Message option" where
  "message_at s a = (case lookup s a of Some (Message_cell m) \<Rightarrow> Some m | _ \<Rightarrow> None)"

definition display_at :: "store \<Rightarrow> nat \<Rightarrow> DisplayMessage option" where
  "display_at s a = (case lookup s a of Some (Display_cell d) \<Rightarrow> Some d | _ \<Rightarrow> None)"

definition read_messages :: "store \<Rightarrow> nat \<Rightarrow> Message list option" where
  "read_messages s arr =
     (case lookup s arr of
        Some (Array_cell as) \<Rightarrow> those (map (message_at s) as)
      | _ \<Rightarrow> None)"

definition read_display :: "store \<Rightarrow> nat \<Rightarrow> DisplayMessage list option" where
  "read_display s arr =
     (case lookup s arr of
        Some (Array_cell as) \<Rightarrow> those (map (display_at s) as)
      | _ \<Rightarrow> None)"

section \<open>components/chat/ChatWrapper.tsx: the chat wrapper\<close>

text \<open>
  The props the handlers read: \<open>conversationId\<close>, whether the two optional callbacks
  were given, \<open>initialMessage\<close> (\<open>string | null\<close>) and \<open>initialContext\<close>.
\<close>

record ChatWrapperProps =
  conversationId_prop :: "js_string option"
  onConversationCreated_prop :: bool
  onConversationUpdated_prop :: bool
  initialMessage :: "js_string option"
  initialContext :: "json option"

text \<open>
  What the wrapper calls outside itself: \<open>chatService.sendMessage\<close>, the callbacks of
  its props and \<open>router.replace\<close>.
\<close>

datatype wrapper_call =
    Service_sendMessage js_string "js_string option" "json option"
  | Props_onConversationCreated js_string
  | Router_replace js_string
  | Props_onConversationUpdated js_string

text \<open>
  The state of one mounted wrapper: the three \<open>useState\<close> values, the
  \<open>initialMessageProcessed\<close> ref, and the calls made so far. A handler reads \<open>busy\<close>
  from the render that created it, not from the current state: that captured value is
  the argument \<open>busy'\<close> of the handlers below.
\<close>

record ChatWrapper =
  messages :: "DisplayMessage list"
  busy :: bool
  error :: "js_string option"
  initialMessageProcessed :: bool
  outgoing_calls :: "wrapper_call list"

definition mount :: "DisplayMessage list \<Rightarrow> ChatWrapper" where
  "mount initialMessages =
     \<lparr>messages = initialMessages, busy = False, error = None,
      initialMessageProcessed = False, outgoing_calls = []\<rparr>"

text \<open>A message object with \<open>role\<close> and \<open>content\<close> only.\<close>

definition plain_message :: "role \<Rightarrow> js_string \<Rightarrow> DisplayMessage" where
  "plain_message r c =
     \<lparr>role = r, d_content = c, blocks = None, d_response_data = None, d_intent = None,
      d_id = None, d_timestamp = None, d_rating = None\<rparr>"

text \<open>
  \<open>handleSendMessage\<close> up to its \<open>await\<close>: the guard, \<open>setBusy(true)\<close>,
  \<open>setError(null)\<close>, the optimistic user message and the call of
  \<open>chatService.sendMessage\<close>.
\<close>

definition handleSendMessage_start ::
  "ChatWrapperProps \<Rightarrow> bool \<Rightarrow> js_string \<Rightarrow> json option \<Rightarrow> ChatWrapper \<Rightarrow> ChatWrapper" where
  "handleSendMessage_start props busy' text' context st =
     (if busy' then st
      else st\<lparr>busy := True, error := None,
              messages := messages st @ [plain_message user text'],
              outgoing_calls := outgoing_calls st
                 @ [Service_sendMessage text' (conversationId_prop props) context]\<rparr>)"

text \<open>
  \<open>handleSendMessage\<close> after the \<open>await\<close>, with the result of
  \<open>chatService.sendMessage\<close>: the rest of the \<open>try\<close> block, or the \<open>catch\<close> block,
  then \<open>finally\<close>. \<open>on_new_page\<close> is
  \<open>window.location.pathname.includes('/chat/new')\<close>.
\<close>

definition handleSendMessage_settle ::
  "ChatWrapperProps \<Rightarrow> bool \<Rightarrow> js_error + ChatResponse \<Rightarrow> ChatWrapper \<Rightarrow> ChatWrapper" where
  "handleSendMessage_settle props on_new_page result st =
     (case result of
        Inr response' \<Rightarrow>
          (let assistantMessage =
                 \<lparr>role = assistant, d_content = response response',
                  blocks = r_blocks response', d_response_data = None, d_intent = r_intent response',
                  d_id = message_id response', d_timestamp = None, d_rating = None\<rparr>;
               st1 = st\<lparr>messages := messages st @ [assistantMessage]\<rparr>;
               st2 =
                 (if \<not> truthy (conversationId_prop props) \<and> truthy (conversation_id response')
                  then
                    (let st' =
                       (if onConversationCreated_prop props
                        then st1\<lparr>outgoing_calls := outgoing_calls st1
                               @ [Props_onConversationCreated (as_string (conversation_id response'))]\<rparr>
                        else st1)
                     in if on_new_page
                        then st'\<lparr>outgoing_calls := outgoing_calls st'
                               @ [Router_replace
                                    (lit ''/chat/'' @ as_string (conversation_id response'))]\<rparr>
                        else st')
                  else st1);
               st3 =
                 (if truthy (conversation_id response') \<and> onConversationUpdated_prop props
                  then st2\<lparr>outgoing_calls := outgoing_calls st2
                         @ [Props_onConversationUpdated (as_string (conversation_id response'))]\<rparr>
                  else st2)
           in st3\<lparr>busy := False\<rparr>)
      | Inl error' \<Rightarrow>
          (let st1 = st\<lparr>messages := butlast (messages st)\<rparr>;
               errorMessage = plain_message assistant
                 (lit ''Sorry, I encountered an error processing your message. Please try again.'');
               st2 = st1\<lparr>messages := messages st1 @ [errorMessage]\<rparr>;
               st3 = st2\<lparr>error := Some (if message error' \<noteq> [] then message error'
                                        else lit ''Failed to send message'')\<rparr>
           in st3\<lparr>busy := False\<rparr>))"

text \<open>
  \<open>handleSendMessage\<close> is \<open>async\<close>: a call runs \<open>handleSendMessage_start\<close> and
  returns at the \<open>await\<close>; the rest, \<open>handleSendMessage_settle\<close>, runs when the
  promise of \<open>chatService.sendMessage\<close> settles, on the state the wrapper has then. So
  the wrapper's history is a sequence of events: a call of the handler, with the
  \<open>busy\<close> that handler captured and its arguments, or the settling of an awaited
  promise, with its result. A handler of the current render has captured the current
  \<open>busy\<close>; a handler kept from an earlier render may have captured an older one.
\<close>

datatype wrapper_event =
    Called bool js_string "json option"
  | Settled "js_error + ChatResponse"

fun wrapper_events ::
  "ChatWrapperProps \<Rightarrow> bool \<Rightarrow> wrapper_event list \<Rightarrow> ChatWrapper \<Rightarrow> ChatWrapper" where
  "wrapper_events props on_new_page [] st = st"
| "wrapper_events props on_new_page (Called busy' text' context # events) st =
     wrapper_events props on_new_page events
       (handleSendMessage_start props busy' text' context st)"
| "wrapper_events props on_new_page (Settled result # events) st =
     wrapper_events props on_new_page events
       (handleSendMessage_settle props on_new_page result st)"

text \<open>
  The effect on \<open>[initialMessage]\<close>, up to the \<open>await\<close> inside \<open>handleSendMessage\<close>.
  \<open>busy'\<close> is the \<open>busy\<close> of the render whose effect runs; \<open>handleSendMessage\<close> is
  the one of that render too.
\<close>

definition initialMessage_effect ::
  "ChatWrapperProps \<Rightarrow> bool \<Rightarrow> ChatWrapper \<Rightarrow> ChatWrapper" where
  "initialMessage_effect props busy' st =
     (if truthy (initialMessage props) \<and> \<not> initialMessageProcessed st \<and> \<not> busy' then
        handleSendMessage_start props busy' (as_string (initialMessage props))
          (initialContext props) (st\<lparr>initialMessageProcessed := True\<rparr>)
      else st)"

text \<open>
  The effect run once for each element of the list, which gives the \<open>busy\<close> each run
  captured. A framework that invokes the mount effect twice runs it twice with the
  \<open>busy\<close> of the first render, \<open>False\<close>.
\<close>

fun initialMessage_effects ::
  "ChatWrapperProps \<Rightarrow> bool list \<Rightarrow> ChatWrapper \<Rightarrow> ChatWrapper" where
  "initialMessage_effects props [] st = st"
| "initialMessage_effects props (busy' # runs) st =
     initialMessage_effects props runs (initialMessage_effect props busy' st)"

section \<open>Example backends\<close>

text \<open>
  Three backends for the examples below. \<open>offline_backend\<close> rejects every request
  with a network error. \<open>create_only_backend\<close> answers \<open>POST /api/chat/conversations\<close>
  and \<open>PUT\<close> and rejects the rest. \<open>online_backend\<close> also answers the two message
  requests.
\<close>

definition network_error :: js_error where
  "network_error = \<lparr>response_data_detail = None, message = lit ''Network Error''\<rparr>"

definition conversation_c1 :: "js_string \<Rightarrow> js_string \<Rightarrow> Conversation" where
  "conversation_c1 t f =
     \<lparr>conv_id = lit ''c1'', title = t, first_message = f, last_activity = lit ''now'',
      message_count = 1, is_archived = False, created_at = lit ''now''\<rparr>"

definition reply_ok :: "js_string \<Rightarrow> ChatResponse" where
  "reply_ok cid =
     \<lparr>response = lit ''ok'', r_intent = None, r_data = None, action_taken = None,
      suggestions = None, conversation_id = Some cid, message_id = Some (lit ''m1''),
      r_blocks = None, attachment_processed = None\<rparr>"

definition offline_backend :: backend where
  "offline_backend =
     \<lparr>post_conversations = (\<lambda>n t f. Inl network_error),
      post_messages = (\<lambda>n c m ctx att. Inl network_error),
      post_messages_form = (\<lambda>n c m fs. Inl network_error),
      put_conversation = (\<lambda>n c upd. Inl network_error),
      get_conversation = (\<lambda>n c. Inl network_error),
      delete_conversation = (\<lambda>n c. Inl network_error)\<rparr>"

definition create_only_backend :: backend where
  "create_only_backend =
     \<lparr>post_conversations = (\<lambda>n t f. Inr (conversation_c1 t f)),
      post_messages = (\<lambda>n c m ctx att. Inl network_error),
      post_messages_form = (\<lambda>n c m fs. Inl network_error),
      put_conversation = (\<lambda>n c upd. Inr ()),
      get_conversation = (\<lambda>n c. Inl network_error),
      delete_conversation = (\<lambda>n c. Inl network_error)\<rparr>"

definition online_backend :: backend where
  "online_backend =
     \<lparr>post_conversations = (\<lambda>n t f. Inr (conversation_c1 t f)),
      post_messages = (\<lambda>n c m ctx att. Inr (reply_ok c)),
      post_messages_form = (\<lambda>n c m fs. Inr (reply_ok c)),
      put_conversation = (\<lambda>n c upd. Inr ()),
      get_conversation = (\<lambda>n c. Inl network_error),
      delete_conversation = (\<lambda>n c. Inr ())\<rparr>"

section \<open>Example messages\<close>

text \<open>
  A store with a user message at address 0, an assistant message whose
  \<open>response_data\<close> has \<open>blocks\<close> at address 1, and the array of both at address 2.
\<close>

definition example_user_message :: Message where
  "example_user_message =
     \<lparr>m_id = lit ''m1'', m_conversation_id = lit ''c1'', message_type = USER,
      content = lit ''list classes'', intent = None, context_data = None,
      response_data = Some (JObj [(lit ''blocks'', JArr [JStr (lit ''ignored'')])]),
      processing_time_ms = None, m_created_at = lit ''t1'', rating = None,
      rated_at = None\<rparr>"

definition example_assistant_message :: Message where
  "example_assistant_message =
     \<lparr>m_id = lit ''m2'', m_conversation_id = lit ''c1'', message_type = ASSISTANT,
      content = lit ''two classes'', intent = Some (lit ''list''), context_data = None,
      response_data = Some (JObj [(lit ''blocks'', JArr [JStr (lit ''table'')])]),
      processing_time_ms = Some 12, m_created_at = lit ''t2'', rating = Some (Some 1),
      rated_at = Some None\<rparr>"

definition example_store :: store where
  "example_store =
     [Message_cell example_user_message, Message_cell example_assistant_message,
      Array_cell [0, 1]]"

section \<open>Example hook\<close>

text \<open>
  A hook with all five callbacks, a bus just constructed, and that bus after the hook
  subscribed to it and its cleanup ran: the bus a second run of the effect finds.
\<close>

definition all_callbacks :: UseChatSyncOptions where
  "all_callbacks =
     \<lparr>onConversationCreated = True, onConversationUpdated = True,
      onConversationDeleted = True, onMessageSent = True, onForceRefresh = True\<rparr>"

definition new_bus :: "sync_listener ChatEventBus" where
  "new_bus =
     \<lparr>listeners = Map.empty, lastEventTimestamp = 0, handleStorageEvent_ref = 0,
      handleWindowFocus_ref = 1, handleVisibilityChange_ref = 2\<rparr>"

definition released_bus :: "sync_listener ChatEventBus" where
  "released_bus =
     cleanup (fst (subscription_effect all_callbacks new_bus))
       (snd (subscription_effect all_callbacks new_bus))"

section \<open>Verified properties\<close>

subsection \<open>Event bus: the timestamp filter\<close>

lemma handleStorageEvent_calls:
  assumes "handleStorageEvent JSON_parse e bus = (bus', calls)"
      and "(cb, event) \<in> set calls"
  shows "lastEventTimestamp bus < timestamp event \<and> lastEventTimestamp bus' = timestamp event"
  using assms
  by (auto simp: handleStorageEvent_def notifyListeners_def Let_def
           split: if_splits option.splits)

lemma handleStorageEvent_mono:
  "handleStorageEvent JSON_parse e bus = (bus', calls) \<Longrightarrow>
   lastEventTimestamp bus \<le> lastEventTimestamp bus'"
  by (auto simp: handleStorageEvent_def Let_def split: if_splits option.splits)

lemma deliver_calls_bounded:
  "deliver JSON_parse bus es = (bus', calls) \<Longrightarrow>
   lastEventTimestamp bus \<le> lastEventTimestamp bus' \<and>
   (\<forall>(cb, event) \<in> set calls.
      lastEventTimestamp bus < timestamp event \<and> timestamp event \<le> lastEventTimestamp bus')"
proof (induction es arbitrary: bus bus' calls)
  case Nil
  then show ?case by simp
next
  case (Cons e es)
  obtain b1 c1 where s: "handleStorageEvent JSON_parse e bus = (b1, c1)"
    by (cases "handleStorageEvent JSON_parse e bus")
  obtain b2 c2 where r: "deliver JSON_parse b1 es = (b2, c2)"
    by (cases "deliver JSON_parse b1 es")
  from Cons.prems s r have eq: "bus' = b2" "calls = c1 @ c2" by simp_all
  have m1: "lastEventTimestamp bus \<le> lastEventTimestamp b1"
    by (rule handleStorageEvent_mono[OF s])
  have ih: "lastEventTimestamp b1 \<le> lastEventTimestamp b2"
    "\<forall>(cb, event) \<in> set c2.
      lastEventTimestamp b1 < timestamp event \<and> timestamp event \<le> lastEventTimestamp b2"
    using Cons.IH[OF r] by simp_all
  have c1: "\<forall>(cb, event) \<in> set c1.
      lastEventTimestamp bus < timestamp event \<and> timestamp event = lastEventTimestamp b1"
    using handleStorageEvent_calls[OF s] by auto
  show ?case using eq m1 ih c1 by fastforce
qed

text \<open>
  C1 (monotonic discard). Let \<open>bus\<close> be the instance after any sequence \<open>earlier\<close> of
  storage events, in any order, and let one more storage event \<open>e\<close> arrive. If \<open>e\<close>
  carries an event whose timestamp is at most the last-seen timestamp, no listener is
  called and the instance is unchanged. Every listener call that \<open>e\<close> causes passes an
  event that is strictly newer than the last-seen timestamp, and the last-seen timestamp
  is then that event's. Every event dispatched earlier is at most the last-seen
  timestamp, so a later copy of it is discarded too.
\<close>

theorem monotonic_discard:
  assumes earlier: "deliver JSON_parse bus0 earlier = (bus, calls0)"
      and step: "handleStorageEvent JSON_parse e bus = (bus', calls)"
  shows "(\<forall>v event. newValue e = Some v \<and> JSON_parse v = Some event
            \<and> timestamp event \<le> lastEventTimestamp bus \<longrightarrow> calls = [] \<and> bus' = bus)
       \<and> (\<forall>cb event. (cb, event) \<in> set calls \<longrightarrow>
            lastEventTimestamp bus < timestamp event
            \<and> lastEventTimestamp bus' = timestamp event)
       \<and> (\<forall>cb event. (cb, event) \<in> set calls0 \<longrightarrow>
            timestamp event \<le> lastEventTimestamp bus)"
proof (intro conjI allI impI)
  fix v event
  assume "newValue e = Some v \<and> JSON_parse v = Some event
            \<and> timestamp event \<le> lastEventTimestamp bus"
  with step show "calls = []" and "bus' = bus"
    by (auto simp: handleStorageEvent_def split: if_splits)
next
  fix cb event assume "(cb, event) \<in> set calls"
  with handleStorageEvent_calls[OF step]
  show "lastEventTimestamp bus < timestamp event"
    and "lastEventTimestamp bus' = timestamp event" by auto
next
  fix cb event assume "(cb, event) \<in> set calls0"
  with deliver_calls_bounded[OF earlier]
  show "timestamp event \<le> lastEventTimestamp bus" by auto
qed

text \<open>
  An instance with one \<open>message_sent\<close> listener receives an event stamped 5 and then an
  older one stamped 3: the listener is called once, with the first event.
\<close>

theorem monotonic_discard_witness:
  "deliver
     (\<lambda>v. if v = lit ''five''
          then Some \<lparr>type = message_sent, conversationId = None, data = None :: unit option,
                     timestamp = 5, userId = None\<rparr>
          else if v = lit ''three''
          then Some \<lparr>type = message_sent, conversationId = None, data = None,
                     timestamp = 3, userId = None\<rparr>
          else None)
     \<lparr>listeners = Map.empty(On message_sent \<mapsto> [7 :: nat]), lastEventTimestamp = 0,
      handleStorageEvent_ref = 0, handleWindowFocus_ref = 1, handleVisibilityChange_ref = 2\<rparr>
     [\<lparr>key = Some (lit ''chat_event''), newValue = Some (lit ''five'')\<rparr>,
      \<lparr>key = Some (lit ''chat_event''), newValue = Some (lit ''three'')\<rparr>]
   = (\<lparr>listeners = Map.empty(On message_sent \<mapsto> [7 :: nat]), lastEventTimestamp = 5,
       handleStorageEvent_ref = 0, handleWindowFocus_ref = 1, handleVisibilityChange_ref = 2\<rparr>,
      [(7, \<lparr>type = message_sent, conversationId = None, data = None,
             timestamp = 5, userId = None\<rparr>)])"
  (is "deliver ?P ?b0 [?e5, ?e3] = (?b5, ?log)")
proof -
  have h1: "deliver ?P ?b0 [?e5] = (?b5, ?log)"
    by (simp add: handleStorageEvent_def notifyListeners_def get_or_empty_def truthy_def
                  lit_def)
  obtain b c where h2: "handleStorageEvent ?P ?e3 ?b5 = (b, c)"
    by (cases "handleStorageEvent ?P ?e3 ?b5")
  have p: "?P (lit ''three'')
             = Some \<lparr>type = message_sent, conversationId = None, data = None,
                      timestamp = 3, userId = None\<rparr>"
    by (simp add: lit_def)
  from monotonic_discard[OF h1 h2] p have "c = [] \<and> b = ?b5"
    by simp
  with h1 h2 show ?thesis by simp
qed

subsection \<open>Event bus: subscribe and unsubscribe\<close>

lemma indexOf_notin: "x \<notin> set xs \<Longrightarrow> indexOf xs x = - 1"
  by (induction xs) (auto simp: Let_def)

lemma indexOf_in: "x \<in> set xs \<Longrightarrow> 0 \<le> indexOf xs x"
  by (induction xs) (auto simp: Let_def)

lemma splice1_indexOf: "x \<in> set xs \<Longrightarrow> splice1 xs (nat (indexOf xs x)) = remove1 x xs"
proof (induction xs)
  case Nil
  then show ?case by simp
next
  case (Cons y ys)
  show ?case
  proof (cases "y = x")
    case True
    then show ?thesis by (simp add: splice1_def)
  next
    case False
    with Cons.prems have in_ys: "x \<in> set ys" by simp
    from indexOf_in[OF in_ys] have "nat (indexOf ys x + 1) = Suc (nat (indexOf ys x))"
      by simp
    with False in_ys Cons.IH indexOf_in[OF in_ys] show ?thesis
      by (simp add: splice1_def Let_def)
  qed
qed

lemma unsubscribe_remove1:
  "unsubscribe eventType callback bus =
     (if callback \<in> set (get_or_empty bus eventType)
      then bus\<lparr>listeners :=
             (listeners bus)(eventType \<mapsto> remove1 callback (get_or_empty bus eventType))\<rparr>
      else bus)"
  using indexOf_in[of callback "get_or_empty bus eventType"]
  by (auto simp: unsubscribe_def Let_def indexOf_notin splice1_indexOf)

lemma get_or_empty_unsubscribe:
  "get_or_empty (unsubscribe eventType callback bus) k =
     (if k = eventType then remove1 callback (get_or_empty bus eventType)
      else get_or_empty bus k)"
  by (auto simp: unsubscribe_remove1 get_or_empty_def remove1_idem)

lemma lastEventTimestamp_unsubscribe:
  "lastEventTimestamp (unsubscribe eventType callback bus) = lastEventTimestamp bus"
  by (simp add: unsubscribe_remove1)

lemma notin_remove1_count:
  "count_list xs x \<le> 1 \<Longrightarrow> x \<notin> set (remove1 x xs)"
  by (induction xs) (auto simp: count_list_0_iff split: if_splits)

lemma unsubscribe_twice:
  assumes "count_list (get_or_empty bus eventType) callback \<le> 1"
  shows "unsubscribe eventType callback (unsubscribe eventType callback bus)
           = unsubscribe eventType callback bus"
proof -
  have "callback \<notin> set (get_or_empty (unsubscribe eventType callback bus) eventType)"
    using notin_remove1_count[OF assms] by (simp add: get_or_empty_unsubscribe)
  then show ?thesis
    by (subst unsubscribe_remove1) simp
qed

lemma get_or_empty_subscribe:
  "get_or_empty (snd (subscribe eventType callback bus)) k =
     (if k = eventType then get_or_empty bus eventType @ [callback]
      else get_or_empty bus k)"
  by (auto simp: subscribe_def Let_def get_or_empty_def)

text \<open>
  C8 (unsubscribe), as amended. \<open>subscribe\<close> appends the callback to the list of its
  event type and returns \<open>unsub\<close>. In every later state of the registry, \<open>unsub\<close>
  removes one registration of that callback under that event type, the earliest one,
  and changes nothing else; it is total, so it never throws. A second call changes
  nothing more when the callback was registered at most once under that type; in
  particular when it was not registered there before this \<open>subscribe\<close>.
\<close>

theorem unsubscribe_removes_one_registration:
  assumes sub: "subscribe eventType callback bus = (unsub, bus1)"
  shows "get_or_empty bus1 eventType = get_or_empty bus eventType @ [callback]
       \<and> (\<forall>bus2. get_or_empty (unsub bus2) eventType
                    = remove1 callback (get_or_empty bus2 eventType)
                \<and> (\<forall>k. k \<noteq> eventType \<longrightarrow> get_or_empty (unsub bus2) k = get_or_empty bus2 k)
                \<and> lastEventTimestamp (unsub bus2) = lastEventTimestamp bus2)
       \<and> (\<forall>bus2. count_list (get_or_empty bus2 eventType) callback \<le> 1 \<longrightarrow>
                unsub (unsub bus2) = unsub bus2)
       \<and> (callback \<notin> set (get_or_empty bus eventType) \<longrightarrow>
                get_or_empty (unsub bus1) eventType = get_or_empty bus eventType
              \<and> unsub (unsub bus1) = unsub bus1)"
proof -
  from sub have u: "unsub = unsubscribe eventType callback"
    by (simp add: subscribe_def Let_def)
  from sub have b1: "bus1 = snd (subscribe eventType callback bus)" by simp
  have g1: "get_or_empty bus1 eventType = get_or_empty bus eventType @ [callback]"
    unfolding b1 by (simp add: get_or_empty_subscribe)
  have once: "callback \<notin> set (get_or_empty bus eventType) \<Longrightarrow>
      count_list (get_or_empty bus1 eventType) callback \<le> 1"
    unfolding g1 by (simp add: count_list_0_iff)
  show ?thesis
    unfolding u
    using g1 once
    by (auto simp: get_or_empty_unsubscribe lastEventTimestamp_unsubscribe unsubscribe_twice
                   remove1_append)
qed

text \<open>
  The same callback subscribed twice to \<open>'*'\<close>: the first call of the first
  \<open>unsub\<close> leaves one registration, and its second call removes that one as well.
\<close>

theorem unsubscribe_twice_counterexample:
  "get_or_empty
     (fst (subscribe Star (7 :: nat)
             \<lparr>listeners = Map.empty, lastEventTimestamp = 0, handleStorageEvent_ref = 0,
              handleWindowFocus_ref = 1, handleVisibilityChange_ref = 2\<rparr>)
        (snd (subscribe Star 7
           (snd (subscribe Star 7
             \<lparr>listeners = Map.empty, lastEventTimestamp = 0, handleStorageEvent_ref = 0,
              handleWindowFocus_ref = 1, handleVisibilityChange_ref = 2\<rparr>))))) Star = [7]
   \<and> get_or_empty
     (fst (subscribe Star (7 :: nat)
             \<lparr>listeners = Map.empty, lastEventTimestamp = 0, handleStorageEvent_ref = 0,
              handleWindowFocus_ref = 1, handleVisibilityChange_ref = 2\<rparr>)
       (fst (subscribe Star (7 :: nat)
             \<lparr>listeners = Map.empty, lastEventTimestamp = 0, handleStorageEvent_ref = 0,
              handleWindowFocus_ref = 1, handleVisibilityChange_ref = 2\<rparr>)
        (snd (subscribe Star 7
           (snd (subscribe Star 7
             \<lparr>listeners = Map.empty, lastEventTimestamp = 0, handleStorageEvent_ref = 0,
              handleWindowFocus_ref = 1, handleVisibilityChange_ref = 2\<rparr>)))))) Star = []"
  by (simp add: subscribe_def unsubscribe_def get_or_empty_def splice1_def Let_def)

text \<open>
  A registry with callback 7 under \<open>message_sent\<close>: callback 8 is subscribed and
  unsubscribed, and the list is \<open>[7]\<close> again.
\<close>

theorem unsubscribe_removes_one_registration_witness:
  "get_or_empty
     (fst (subscribe (On message_sent) (8 :: nat)
        \<lparr>listeners = Map.empty(On message_sent \<mapsto> [7]), lastEventTimestamp = 0,
         handleStorageEvent_ref = 0, handleWindowFocus_ref = 1, handleVisibilityChange_ref = 2\<rparr>)
       (snd (subscribe (On message_sent) (8 :: nat)
        \<lparr>listeners = Map.empty(On message_sent \<mapsto> [7]), lastEventTimestamp = 0,
         handleStorageEvent_ref = 0, handleWindowFocus_ref = 1, handleVisibilityChange_ref = 2\<rparr>)))
     (On message_sent) = [7]
   \<and> 8 \<notin> set (get_or_empty 
        \<lparr>listeners = Map.empty(On message_sent \<mapsto> [7::nat]), lastEventTimestamp = 0,
         handleStorageEvent_ref = 0, handleWindowFocus_ref = 1, handleVisibilityChange_ref = 2\<rparr>  (On message_sent))"
  (is "get_or_empty (fst (subscribe ?t ?c ?b) (snd (subscribe ?t ?c ?b))) ?t = [7] \<and> _")
proof -
  have fresh: "?c \<notin> set (get_or_empty ?b ?t)" by (simp add: get_or_empty_def)
  have old: "get_or_empty ?b ?t = [7]" by (simp add: get_or_empty_def)
  have s: "subscribe ?t ?c ?b = (fst (subscribe ?t ?c ?b), snd (subscribe ?t ?c ?b))" by simp
  from unsubscribe_removes_one_registration[OF s] fresh old show ?thesis by simp
qed

subsection \<open>Event bus: constructor and destroy\<close>

lemma constructor_True:
  assumes wf: "\<forall>(tgt, ty, f) \<in> set (event_listeners b0). f < length (fn_objects b0)"
  shows "constructor True b0 =
     (\<lparr>listeners = Map.empty, lastEventTimestamp = 0,
       handleStorageEvent_ref = length (fn_objects b0),
       handleWindowFocus_ref = length (fn_objects b0) + 1,
       handleVisibilityChange_ref = length (fn_objects b0) + 2\<rparr>,
      \<lparr>fn_objects = fn_objects b0 @
         [Arrow HandleStorageEvent, Arrow HandleWindowFocus, Arrow HandleVisibilityChange,
          Bound (length (fn_objects b0)), Bound (length (fn_objects b0) + 1),
          Bound (length (fn_objects b0) + 2)],
       event_listeners = event_listeners b0 @
         [(Window, lit ''storage'', length (fn_objects b0) + 3),
          (Window, lit ''focus'', length (fn_objects b0) + 4),
          (Document, lit ''visibilitychange'', length (fn_objects b0) + 5)]\<rparr>)"
proof -
  have neq: "\<And>tgt ty n. (tgt, ty, length (fn_objects b0) + n) \<notin> set (event_listeners b0)"
    using wf by fastforce
  have neq0: "\<And>tgt ty. (tgt, ty, length (fn_objects b0)) \<notin> set (event_listeners b0)"
    using neq[of _ _ 0] by simp
  show ?thesis
    using neq[of Window "lit ''storage''" 3] neq[of Window "lit ''focus''" 4]
          neq[of Document "lit ''visibilitychange''" 5]
    by (simp add: constructor_def alloc_def addEventListener_def Let_def numeral_eq_Suc)
qed

lemma destroy_after_constructor:
  assumes wf: "\<forall>(tgt, ty, f) \<in> set (event_listeners b0). f < length (fn_objects b0)"
      and c: "constructor True b0 = (bus, b1)"
      and d: "destroy True bus b1 = (bus', b2)"
  shows "event_listeners b2 = event_listeners b1
       \<and> (Window, lit ''storage'', length (fn_objects b0) + 3) \<in> set (event_listeners b2)
       \<and> (Window, lit ''focus'', length (fn_objects b0) + 4) \<in> set (event_listeners b2)
       \<and> (Document, lit ''visibilitychange'', length (fn_objects b0) + 5)
             \<in> set (event_listeners b2)"
proof -
  have neq: "\<And>tgt ty n. (tgt, ty, length (fn_objects b0) + n) \<notin> set (event_listeners b0)"
    using wf by fastforce
  have neq0: "\<And>tgt ty. (tgt, ty, length (fn_objects b0)) \<notin> set (event_listeners b0)"
    using neq[of _ _ 0] by simp
  have keep: "filter (\<lambda>x. x \<noteq> (t1, y1, length (fn_objects b0))
                        \<and> x \<noteq> (t2, y2, Suc (length (fn_objects b0)))
                        \<and> x \<noteq> (t3, y3, Suc (Suc (length (fn_objects b0)))))
                 (event_listeners b0) = event_listeners b0" for t1 y1 t2 y2 t3 y3
    using neq0 neq[of _ _ 1] neq[of _ _ 2] by (auto simp: filter_id_conv)
  from c d show ?thesis
    unfolding constructor_True[OF wf]
    by (auto simp: destroy_def removeEventListener_def Let_def keep lit_def)
qed

lemma destroy_twice:
  "destroy has_window (fst (destroy has_window bus b)) (snd (destroy has_window bus b))
     = destroy has_window bus b"
  by (simp add: destroy_def removeEventListener_def Let_def cong: conj_cong)

text \<open>
  C3 (destroy), evaluated. A bus is constructed in a browser with no function objects
  and no listeners yet, a callback subscribes to \<open>'*'\<close>, and \<open>destroy\<close> runs. The
  local subscriptions are cleared, and the three listeners the constructor registered
  (the bound functions at addresses 3, 4 and 5) are all still registered:
  \<open>destroy\<close> looks for the unbound functions at addresses 0, 1 and 2, which were
  never registered.
\<close>

theorem destroy_leaves_bound_listeners:
  "destroy True
     (snd (subscribe Star (7 :: nat)
        (fst (constructor True \<lparr>fn_objects = [], event_listeners = []\<rparr>))))
     (snd (constructor True \<lparr>fn_objects = [], event_listeners = []\<rparr>
        :: nat ChatEventBus \<times> browser))
   = (\<lparr>listeners = Map.empty, lastEventTimestamp = 0, handleStorageEvent_ref = 0,
       handleWindowFocus_ref = 1, handleVisibilityChange_ref = 2\<rparr>,
      \<lparr>fn_objects = [Arrow HandleStorageEvent, Arrow HandleWindowFocus,
                      Arrow HandleVisibilityChange, Bound 0, Bound 1, Bound 2],
       event_listeners = [(Window, lit ''storage'', 3), (Window, lit ''focus'', 4),
                          (Document, lit ''visibilitychange'', 5)]\<rparr>)"
  by (simp add: constructor_def destroy_def subscribe_def alloc_def addEventListener_def
                removeEventListener_def Let_def lit_def)

subsection \<open>Sync hook: which events reach the callbacks\<close>

lemma getCurrentUserId_nonempty: "getCurrentUserId decode_sub has_window token \<noteq> Some []"
  by (simp add: getCurrentUserId_def split: option.splits)

lemma get_or_empty_subscribe_if:
  "get_or_empty (snd (subscribe_if given ty l st)) k =
     (if given \<and> k = On ty then get_or_empty (snd st) k @ [l] else get_or_empty (snd st) k)"
  by (auto simp: subscribe_if_def subscribe_def Let_def get_or_empty_def split: prod.splits)

lemma fst_subscribe_if:
  "fst (subscribe_if given ty l st) =
     (if given then fst st @ [unsubscribe (On ty) l] else fst st)"
  by (simp add: subscribe_if_def subscribe_def Let_def)

lemma get_or_empty_subscription_effect:
  assumes "\<forall>k. get_or_empty bus0 k = []"
  shows "get_or_empty (snd (subscription_effect options bus0)) k =
     (case k of
        Star \<Rightarrow> []
      | On conversation_created \<Rightarrow> if onConversationCreated options then [created_listener] else []
      | On conversation_updated \<Rightarrow> if onConversationUpdated options then [updated_listener] else []
      | On conversation_deleted \<Rightarrow> if onConversationDeleted options then [deleted_listener] else []
      | On message_sent \<Rightarrow> if onMessageSent options then [message_listener] else []
      | On force_refresh \<Rightarrow> if onForceRefresh options then [refresh_listener] else [])"
  using assms
  by (simp add: subscription_effect_def get_or_empty_subscribe_if
           split: topic.splits ChatEventType.splits)

text \<open>
  After the cleanup of the effect no callback is registered, although the keys the
  effect created stay in the map: the next run of the effect starts from such a bus.
\<close>

lemma cleanup_releases_all:
  assumes "\<forall>k. get_or_empty bus0 k = []"
  shows "get_or_empty
           (cleanup (fst (subscription_effect options bus0))
              (snd (subscription_effect options bus0))) k = []"
proof -
  have sub: "get_or_empty (snd (subscription_effect options bus0)) k' =
     (case k' of
        Star \<Rightarrow> []
      | On conversation_created \<Rightarrow> if onConversationCreated options then [created_listener] else []
      | On conversation_updated \<Rightarrow> if onConversationUpdated options then [updated_listener] else []
      | On conversation_deleted \<Rightarrow> if onConversationDeleted options then [deleted_listener] else []
      | On message_sent \<Rightarrow> if onMessageSent options then [message_listener] else []
      | On force_refresh \<Rightarrow> if onForceRefresh options then [refresh_listener] else [])" for k'
    by (rule get_or_empty_subscription_effect[OF assms])
  have uns: "fst (subscription_effect options bus0) =
       (if onConversationCreated options
        then [unsubscribe (On conversation_created) created_listener] else [])
     @ (if onConversationUpdated options
        then [unsubscribe (On conversation_updated) updated_listener] else [])
     @ (if onConversationDeleted options
        then [unsubscribe (On conversation_deleted) deleted_listener] else [])
     @ (if onMessageSent options
        then [unsubscribe (On message_sent) message_listener] else [])
     @ (if onForceRefresh options
        then [unsubscribe (On force_refresh) refresh_listener] else [])"
    by (simp add: subscription_effect_def fst_subscribe_if)
  show ?thesis
    unfolding uns cleanup_def
    by (cases k rule: topic.exhaust; (cases "case k of On t \<Rightarrow> t | Star \<Rightarrow> force_refresh")?)
       (simp_all add: get_or_empty_unsubscribe sub)
qed

lemma callbacks_invoked_mounted:
  assumes "\<forall>k. get_or_empty bus0 k = []"
  shows "callbacks_invoked U (snd (subscription_effect options bus0)) event =
     (case type event of
        conversation_created \<Rightarrow>
          if onConversationCreated options then listener_body U created_listener event else []
      | conversation_updated \<Rightarrow>
          if onConversationUpdated options then listener_body U updated_listener event else []
      | conversation_deleted \<Rightarrow>
          if onConversationDeleted options then listener_body U deleted_listener event else []
      | message_sent \<Rightarrow>
          if onMessageSent options then listener_body U message_listener event else []
      | force_refresh \<Rightarrow>
          if onForceRefresh options then listener_body U refresh_listener event else [])"
  by (simp add: callbacks_invoked_def notifyListeners_def
                get_or_empty_subscription_effect[OF assms] split: ChatEventType.splits)

text \<open>
  C2 (self-echo suppression), as amended. The subscription effect of the hook runs on a
  bus where no callback is registered: a new bus, or the bus its own cleanup left, so
  every run of the effect is covered. The current user id is what
  \<open>getCurrentUserId\<close> returns. An event
  whose \<open>userId\<close> is the current user's calls no callback. An event of a type other
  than \<open>force_refresh\<close> with no \<open>conversationId\<close>, or an empty one, calls no
  callback either, whatever its \<open>userId\<close>. An event whose \<open>userId\<close> is absent or
  differs from the current user's calls the callback given for its type exactly once:
  \<open>onForceRefresh\<close> for \<open>force_refresh\<close>, and for the four other types the
  callback of that type, with the event's non-empty \<open>conversationId\<close>.
\<close>

theorem self_echo_suppression:
  assumes mount: "subscription_effect options bus0 = (unsubscribers, bus)"
      and fresh: "\<forall>k. get_or_empty bus0 k = []"
      and user: "currentUserId = getCurrentUserId decode_sub has_window token"
  shows "(currentUserId \<noteq> None \<and> userId event = currentUserId \<longrightarrow>
            callbacks_invoked currentUserId bus event = [])
       \<and> (type event \<noteq> force_refresh \<and> \<not> truthy (conversationId event) \<longrightarrow>
            callbacks_invoked currentUserId bus event = [])
       \<and> ((userId event = None \<or> userId event \<noteq> currentUserId) \<longrightarrow>
            (type event = force_refresh \<and> onForceRefresh options \<longrightarrow>
               callbacks_invoked currentUserId bus event = [Call_onForceRefresh])
          \<and> (\<forall>c. conversationId event = Some c \<and> c \<noteq> [] \<longrightarrow>
               (type event = conversation_created \<and> onConversationCreated options \<longrightarrow>
                  callbacks_invoked currentUserId bus event
                    = [Call_onConversationCreated c (data event)])
             \<and> (type event = conversation_updated \<and> onConversationUpdated options \<longrightarrow>
                  callbacks_invoked currentUserId bus event
                    = [Call_onConversationUpdated c (data event)])
             \<and> (type event = conversation_deleted \<and> onConversationDeleted options \<longrightarrow>
                  callbacks_invoked currentUserId bus event = [Call_onConversationDeleted c])
             \<and> (type event = message_sent \<and> onMessageSent options \<longrightarrow>
                  callbacks_invoked currentUserId bus event
                    = [Call_onMessageSent c (data event)])))"
proof -
  from mount have bus: "bus = snd (subscription_effect options bus0)" by simp
  have ne: "currentUserId \<noteq> Some []"
    unfolding user by (rule getCurrentUserId_nonempty)
  have inv: "callbacks_invoked currentUserId bus event =
     (case type event of
        conversation_created \<Rightarrow>
          if onConversationCreated options
          then listener_body currentUserId created_listener event else []
      | conversation_updated \<Rightarrow>
          if onConversationUpdated options
          then listener_body currentUserId updated_listener event else []
      | conversation_deleted \<Rightarrow>
          if onConversationDeleted options
          then listener_body currentUserId deleted_listener event else []
      | message_sent \<Rightarrow>
          if onMessageSent options
          then listener_body currentUserId message_listener event else []
      | force_refresh \<Rightarrow>
          if onForceRefresh options
          then listener_body currentUserId refresh_listener event else [])"
    unfolding bus by (rule callbacks_invoked_mounted[OF fresh])
  show ?thesis
    unfolding inv using ne
    by (cases "type event"; cases currentUserId; cases "userId event"; cases "conversationId event")
       (auto simp: shouldHandleEvent_def truthy_def)
qed



text \<open>
  The current user is \<open>u1\<close> and all five callbacks are given. The effect runs a
  second time, on the bus its cleanup left. A \<open>message_sent\<close> event of user \<open>u2\<close>
  for conversation \<open>c1\<close> calls \<open>onMessageSent\<close>, a \<open>force_refresh\<close> with no
  \<open>userId\<close> calls \<open>onForceRefresh\<close>, and the \<open>message_sent\<close> event of user
  \<open>u1\<close> calls nothing.
\<close>

theorem self_echo_suppression_witness:
  "callbacks_invoked (getCurrentUserId (\<lambda>t. Some (lit ''u1'')) True (Some (lit ''tok'')))
     (snd (subscription_effect all_callbacks released_bus))
     \<lparr>type = message_sent, conversationId = Some (lit ''c1''), data = None :: unit option,
      timestamp = 1, userId = Some (lit ''u2'')\<rparr>
   = [Call_onMessageSent (lit ''c1'') None]
   \<and> callbacks_invoked (getCurrentUserId (\<lambda>t. Some (lit ''u1'')) True (Some (lit ''tok'')))
     (snd (subscription_effect all_callbacks released_bus))
     \<lparr>type = force_refresh, conversationId = None, data = None :: unit option,
      timestamp = 2, userId = None\<rparr>
   = [Call_onForceRefresh]
   \<and> callbacks_invoked (getCurrentUserId (\<lambda>t. Some (lit ''u1'')) True (Some (lit ''tok'')))
     (snd (subscription_effect all_callbacks released_bus))
     \<lparr>type = message_sent, conversationId = Some (lit ''c1''), data = None :: unit option,
      timestamp = 1, userId = Some (lit ''u1'')\<rparr>
   = []
   \<and> listeners released_bus \<noteq> Map.empty"
  (is "callbacks_invoked ?U ?bus ?ev2 = _ \<and> callbacks_invoked ?U ?bus ?ev3 = _
       \<and> callbacks_invoked ?U ?bus ?ev1 = _ \<and> _")
proof -
  have mount: "subscription_effect all_callbacks released_bus
      = (fst (subscription_effect all_callbacks released_bus), ?bus)"
    by simp
  have new: "\<forall>k. get_or_empty new_bus k = []"
    by (simp add: new_bus_def get_or_empty_def)
  have fresh: "\<forall>k. get_or_empty released_bus k = []"
    unfolding released_bus_def using cleanup_releases_all[OF new] by blast
  have kept: "listeners released_bus \<noteq> Map.empty"
  proof
    assume "listeners released_bus = Map.empty"
    then have "listeners released_bus (On force_refresh) = None" by simp
    then show False
      by (simp add: released_bus_def cleanup_def subscription_effect_def subscribe_if_def
                    subscribe_def unsubscribe_def get_or_empty_def splice1_def
                    all_callbacks_def new_bus_def Let_def)
  qed
  have opts: "onMessageSent all_callbacks" "onForceRefresh all_callbacks"
    by (simp_all add: all_callbacks_def)
  have user: "?U = getCurrentUserId (\<lambda>t. Some (lit ''u1'')) True (Some (lit ''tok''))"
    by (rule refl)
  have u: "?U = Some (lit ''u1'')" by (simp add: getCurrentUserId_def lit_def)
  have other: "lit ''u2'' \<noteq> lit ''u1''" "lit ''c1'' \<noteq> []" by (simp_all add: lit_def)
  from self_echo_suppression[OF mount fresh user, where event = ?ev2] u other opts
  have a: "callbacks_invoked ?U ?bus ?ev2 = [Call_onMessageSent (lit ''c1'') None]"
    by simp
  from self_echo_suppression[OF mount fresh user, where event = ?ev3] u opts
  have c: "callbacks_invoked ?U ?bus ?ev3 = [Call_onForceRefresh]"
    by simp
  from self_echo_suppression[OF mount fresh user, where event = ?ev1] u
  have b: "callbacks_invoked ?U ?bus ?ev1 = []"
    by simp
  from a b c kept show ?thesis by simp
qed

text \<open>
  The current user is \<open>u1\<close> and all five callbacks are given. A \<open>message_sent\<close>
  event with no \<open>userId\<close> and no \<open>conversationId\<close> calls no callback.
\<close>

theorem self_echo_always_invoked_counterexample:
  "callbacks_invoked (getCurrentUserId (\<lambda>t. Some (lit ''u1'')) True (Some (lit ''tok'')))
     (snd (subscription_effect
        \<lparr>onConversationCreated = True, onConversationUpdated = True,
         onConversationDeleted = True, onMessageSent = True, onForceRefresh = True\<rparr>
        \<lparr>listeners = Map.empty, lastEventTimestamp = 0, handleStorageEvent_ref = 0,
         handleWindowFocus_ref = 1, handleVisibilityChange_ref = 2\<rparr>))
     \<lparr>type = message_sent, conversationId = None, data = None :: unit option,
      timestamp = 1, userId = None\<rparr>
   = []"
  by (simp add: callbacks_invoked_def notifyListeners_def subscription_effect_def
                subscribe_if_def subscribe_def get_or_empty_def Let_def)

subsection \<open>Chat service: requests and events\<close>

lemma rest_count_append [simp]: "rest_count (tr @ tr') = rest_count tr + rest_count tr'"
  by (simp add: rest_count_def)

lemma rest_count_Rest [simp]: "rest_count (Rest r # tr) = Suc (rest_count tr)"
  by (simp add: rest_count_def)

lemma rest_count_Broadcast [simp]: "rest_count (Broadcast ty c d u # tr) = rest_count tr"
  by (simp add: rest_count_def)

lemma rest_count_Nil [simp]: "rest_count [] = 0"
  by (simp add: rest_count_def)

lemma create_if_new_existing:
  "truthy c \<Longrightarrow> c \<noteq> Some (lit ''new'') \<Longrightarrow> create_if_new api u m c tr = (Inr c, tr)"
  by (simp add: create_if_new_def)

lemma create_if_new_created:
  assumes "\<not> truthy c \<or> c = Some (lit ''new'')"
      and "post_conversations api (rest_count tr)
             (take 50 m @ (if length m > 50 then lit ''...'' else [])) m = Inr conv"
  shows "create_if_new api u m c tr =
           (Inr (Some (conv_id conv)),
            tr @ [Rest (POST_conversations
                         (take 50 m @ (if length m > 50 then lit ''...'' else [])) m),
                  Broadcast conversation_created (Some (conv_id conv))
                    (Some (Conversation_data conv)) u])"
  using assms by (auto simp: create_if_new_def createConversation_def Let_def)

lemma create_if_new_failed:
  assumes "\<not> truthy c \<or> c = Some (lit ''new'')"
      and "post_conversations api (rest_count tr)
             (take 50 m @ (if length m > 50 then lit ''...'' else [])) m = Inl e"
  shows "create_if_new api u m c tr =
           (Inl e,
            tr @ [Rest (POST_conversations
                         (take 50 m @ (if length m > 50 then lit ''...'' else [])) m)])"
  using assms by (auto simp: create_if_new_def createConversation_def Let_def)

text \<open>
  C4 (new-conversation file flow). \<open>sendMessageWithFiles\<close> is called with
  \<open>conversationId\<close> undefined or \<open>'new'\<close>. When the backend answers the create
  request with a conversation and then the message request with a reply, the call
  returns that reply and its effects are exactly, in this order: the create request,
  the event \<open>conversation_created\<close>, one multipart message request to the returned
  id, the event \<open>message_sent\<close> for that id. When the backend rejects the create
  request there is no returned id: the call throws that error after the create request
  alone, as every failed operation does.
\<close>

theorem new_conversation_file_flow:
  assumes new: "c = None \<or> c = Some (lit ''new'')"
  shows "(\<forall>conv reply.
            post_conversations api (rest_count tr)
              (take 50 m @ (if length m > 50 then lit ''...'' else [])) m = Inr conv
          \<and> post_messages_form api (Suc (rest_count tr)) (conv_id conv) m files = Inr reply
          \<longrightarrow> sendMessageWithFiles api u m files c tr =
                (Inr reply,
                 tr @ [Rest (POST_conversations
                               (take 50 m @ (if length m > 50 then lit ''...'' else [])) m),
                       Broadcast conversation_created (Some (conv_id conv))
                         (Some (Conversation_data conv)) u,
                       Rest (POST_messages_form (conv_id conv) m files),
                       Broadcast message_sent (Some (conv_id conv))
                         (Some (Message_data m (response reply))) u]))
       \<and> (\<forall>e. post_conversations api (rest_count tr)
                (take 50 m @ (if length m > 50 then lit ''...'' else [])) m = Inl e
          \<longrightarrow> sendMessageWithFiles api u m files c tr =
                (Inl e,
                 tr @ [Rest (POST_conversations
                               (take 50 m @ (if length m > 50 then lit ''...'' else [])) m)]))"
proof -
  from new have n: "\<not> truthy c \<or> c = Some (lit ''new'')" by (auto simp: truthy_def)
  show ?thesis
    by (auto simp: sendMessageWithFiles_def create_if_new_created[OF n]
                   create_if_new_failed[OF n] as_string_def Let_def)
qed

text \<open>
  C5 (failed operations), as amended. When the request of \<open>createConversation\<close>,
  \<open>sendMessageToConversation\<close> or \<open>deleteConversation\<close> is rejected, or either
  request of \<open>updateConversation\<close>, the operation throws that error and its only
  effects are the requests: no event. \<open>sendMessageWithFiles\<close> throws too (for a
  rejected message request, a new error with the message taken from the rejected one),
  and publishes no \<open>message_sent\<close>; but when it had to create the conversation
  first and that succeeded, \<open>conversation_created\<close> has been published before the
  message request is rejected.
\<close>

theorem failed_operation_events:
  "(post_conversations api (rest_count tr) t f = Inl e \<longrightarrow>
      createConversation api u t f tr = (Inl e, tr @ [Rest (POST_conversations t f)]))
 \<and> (post_messages api (rest_count tr) cid m ctx att = Inl e \<longrightarrow>
      sendMessageToConversation api u cid m ctx att tr
        = (Inl e, tr @ [Rest (POST_messages cid m ctx att)]))
 \<and> (put_conversation api (rest_count tr) cid upd = Inl e \<longrightarrow>
      updateConversation api u cid upd tr = (Inl e, tr @ [Rest (PUT_conversation cid upd)]))
 \<and> (put_conversation api (rest_count tr) cid upd = Inr ()
      \<and> get_conversation api (Suc (rest_count tr)) cid = Inl e \<longrightarrow>
      updateConversation api u cid upd tr
        = (Inl e, tr @ [Rest (PUT_conversation cid upd), Rest (GET_conversation cid)]))
 \<and> (delete_conversation api (rest_count tr) cid = Inl e \<longrightarrow>
      deleteConversation api u cid tr = (Inl e, tr @ [Rest (DELETE_conversation cid)]))
 \<and> (cid \<noteq> [] \<and> cid \<noteq> lit ''new''
      \<and> post_messages_form api (rest_count tr) cid m files = Inl e \<longrightarrow>
      sendMessageWithFiles api u m files (Some cid) tr
        = (Inl (new_Error (file_error_message e)),
           tr @ [Rest (POST_messages_form cid m files)]))
 \<and> ((\<not> truthy c \<or> c = Some (lit ''new''))
      \<and> post_conversations api (rest_count tr)
           (take 50 m @ (if length m > 50 then lit ''...'' else [])) m = Inl e \<longrightarrow>
      sendMessageWithFiles api u m files c tr
        = (Inl e,
           tr @ [Rest (POST_conversations
                         (take 50 m @ (if length m > 50 then lit ''...'' else [])) m)]))
 \<and> ((\<not> truthy c \<or> c = Some (lit ''new''))
      \<and> post_conversations api (rest_count tr)
           (take 50 m @ (if length m > 50 then lit ''...'' else [])) m = Inr conv
      \<and> post_messages_form api (Suc (rest_count tr)) (conv_id conv) m files = Inl e \<longrightarrow>
      sendMessageWithFiles api u m files c tr
        = (Inl (new_Error (file_error_message e)),
           tr @ [Rest (POST_conversations
                         (take 50 m @ (if length m > 50 then lit ''...'' else [])) m),
                 Broadcast conversation_created (Some (conv_id conv))
                   (Some (Conversation_data conv)) u,
                 Rest (POST_messages_form (conv_id conv) m files)]))"
  by (auto simp: createConversation_def sendMessageToConversation_def updateConversation_def
                 deleteConversation_def sendMessageWithFiles_def create_if_new_created
                 create_if_new_failed create_if_new_existing truthy_def as_string_def Let_def)

text \<open>
  With a backend that answers, \<open>sendMessageWithFiles('hello', [a.pdf], undefined)\<close>
  creates conversation \<open>c1\<close>, sends the files to \<open>c1\<close> and publishes the two events.
\<close>

theorem new_conversation_file_flow_witness:
  "sendMessageWithFiles online_backend (Some (lit ''u1'')) (lit ''hello'') [lit ''a.pdf'']
     None []
   = (Inr (reply_ok (lit ''c1'')),
      [Rest (POST_conversations (lit ''hello'') (lit ''hello'')),
       Broadcast conversation_created (Some (lit ''c1''))
         (Some (Conversation_data (conversation_c1 (lit ''hello'') (lit ''hello''))))
         (Some (lit ''u1'')),
       Rest (POST_messages_form (lit ''c1'') (lit ''hello'') [lit ''a.pdf'']),
       Broadcast message_sent (Some (lit ''c1''))
         (Some (Message_data (lit ''hello'') (lit ''ok''))) (Some (lit ''u1''))])"
proof -
  have new: "(None :: js_string option) = None \<or> None = Some (lit ''new'')" by simp
  have t: "take 50 (lit ''hello'') @ (if length (lit ''hello'') > 50 then lit ''...'' else [])
             = lit ''hello''"
    by (simp add: lit_def)
  from new_conversation_file_flow[OF new, of online_backend "[]" "lit ''hello''"
         "[lit ''a.pdf'']" "Some (lit ''u1'')"]
  show ?thesis
    unfolding t
    by (simp add: online_backend_def conversation_c1_def reply_ok_def)
qed

text \<open>
  With a backend that rejects every request, the same call sends the create request
  and throws: no message request and no event.
\<close>

lemma sendMessageWithFiles_offline:
  "sendMessageWithFiles offline_backend (Some (lit ''u1'')) (lit ''hello'') [lit ''a.pdf'']
     None []
   = (Inl network_error, [Rest (POST_conversations (lit ''hello'') (lit ''hello''))])"
  by (simp add: sendMessageWithFiles_def create_if_new_def createConversation_def
                offline_backend_def truthy_def lit_def rest_count_def)

text \<open>
  With a backend that creates conversations and rejects message requests,
  \<open>sendMessageWithFiles('hello', [a.pdf], undefined)\<close> throws, and
  \<open>conversation_created\<close> has been published.
\<close>

theorem failed_operation_events_counterexample:
  "sendMessageWithFiles create_only_backend (Some (lit ''u1'')) (lit ''hello'')
     [lit ''a.pdf''] None []
   = (Inl (new_Error (lit ''Network Error'')),
      [Rest (POST_conversations (lit ''hello'') (lit ''hello'')),
       Broadcast conversation_created (Some (lit ''c1''))
         (Some (Conversation_data (conversation_c1 (lit ''hello'') (lit ''hello''))))
         (Some (lit ''u1'')),
       Rest (POST_messages_form (lit ''c1'') (lit ''hello'') [lit ''a.pdf''])])"
  by (simp add: sendMessageWithFiles_def create_if_new_def createConversation_def
                create_only_backend_def conversation_c1_def network_error_def
                file_error_message_def as_string_def truthy_def lit_def rest_count_def)

text \<open>
  Each failing case at a concrete backend: the first three, the fifth, the sixth and
  the seventh with every request rejected, the fourth and the last with only the create
  and \<open>PUT\<close> requests answered.
\<close>

theorem failed_operation_events_witness:
  "createConversation offline_backend None (lit ''t'') (lit ''hello'') []
     = (Inl network_error, [Rest (POST_conversations (lit ''t'') (lit ''hello''))])
 \<and> sendMessageToConversation offline_backend None (lit ''c1'') (lit ''hello'') None None []
     = (Inl network_error, [Rest (POST_messages (lit ''c1'') (lit ''hello'') None None)])
 \<and> updateConversation offline_backend None (lit ''c1'')
       \<lparr>u_title = Some (lit ''t''), u_is_archived = None\<rparr> []
     = (Inl network_error,
        [Rest (PUT_conversation (lit ''c1'') \<lparr>u_title = Some (lit ''t''), u_is_archived = None\<rparr>)])
 \<and> updateConversation create_only_backend None (lit ''c1'')
       \<lparr>u_title = Some (lit ''t''), u_is_archived = None\<rparr> []
     = (Inl network_error,
        [Rest (PUT_conversation (lit ''c1'') \<lparr>u_title = Some (lit ''t''), u_is_archived = None\<rparr>),
         Rest (GET_conversation (lit ''c1''))])
 \<and> deleteConversation offline_backend None (lit ''c1'') []
     = (Inl network_error, [Rest (DELETE_conversation (lit ''c1''))])
 \<and> sendMessageWithFiles offline_backend None (lit ''hello'') [] (Some (lit ''c1'')) []
     = (Inl (new_Error (lit ''Network Error'')),
        [Rest (POST_messages_form (lit ''c1'') (lit ''hello'') [])])
 \<and> sendMessageWithFiles offline_backend None (lit ''hello'') [] None []
     = (Inl network_error, [Rest (POST_conversations (lit ''hello'') (lit ''hello''))])
 \<and> sendMessageWithFiles create_only_backend None (lit ''hello'') [] None []
     = (Inl (new_Error (lit ''Network Error'')),
        [Rest (POST_conversations (lit ''hello'') (lit ''hello'')),
         Broadcast conversation_created (Some (lit ''c1''))
           (Some (Conversation_data (conversation_c1 (lit ''hello'') (lit ''hello'')))) None,
         Rest (POST_messages_form (lit ''c1'') (lit ''hello'') [])])"
  (is "?A \<and> ?B \<and> ?C \<and> ?D \<and> ?E \<and> ?F \<and> ?G \<and> ?H")
proof -
  have fe: "file_error_message network_error = lit ''Network Error''"
    by (simp add: file_error_message_def network_error_def truthy_def lit_def)
  have ne: "lit ''c1'' \<noteq> []" "lit ''c1'' \<noteq> lit ''new''" by (simp_all add: lit_def)
  note off = failed_operation_events[where api = offline_backend and tr = "[]"
      and e = network_error and u = None and cid = "lit ''c1''" and m = "lit ''hello''"
      and t = "lit ''t''" and f = "lit ''hello''" and ctx = None and att = None
      and upd = "\<lparr>u_title = Some (lit ''t''), u_is_archived = None\<rparr>" and files = "[]"
      and c = None]
  note par = failed_operation_events[where api = create_only_backend and tr = "[]"
      and e = network_error and u = None and cid = "lit ''c1''"
      and upd = "\<lparr>u_title = Some (lit ''t''), u_is_archived = None\<rparr>"
      and m = "lit ''hello''" and files = "[]" and c = None
      and conv = "conversation_c1 (lit ''hello'') (lit ''hello'')"]
  have t: "take 50 (lit ''hello'') @ (if length (lit ''hello'') > 50 then lit ''...'' else [])
             = lit ''hello''"
    by (simp add: lit_def)
  have a: ?A and b: ?B and c: ?C and e: ?E and f: ?F and g: ?G
    using off fe ne unfolding t by (simp_all add: offline_backend_def truthy_def)
  have d: ?D and h: ?H
    using par fe unfolding t
    by (simp_all add: create_only_backend_def conversation_c1_def truthy_def)
  from a b c d e f g h show ?thesis by simp
qed


text \<open>
  C10 (title of an auto-created conversation). When \<open>conversationId\<close> is absent,
  empty or \<open>'new'\<close>, the first effect of \<open>sendMessage\<close> and of
  \<open>sendMessageWithFiles\<close> is a create request, and they send no other. Its first
  message is the whole message. Its title is the message itself when the message has at
  most 50 code units, and otherwise the first 50 code units followed by \<open>'...'\<close>.
\<close>

theorem auto_created_title:
  assumes new: "\<not> truthy c \<or> c = Some (lit ''new'')"
  shows "\<exists>title' rest1 rest2.
           snd (sendMessage api u m c ctx tr)
             = tr @ Rest (POST_conversations title' m) # rest1
         \<and> snd (sendMessageWithFiles api u m files c tr)
             = tr @ Rest (POST_conversations title' m) # rest2
         \<and> (\<forall>t f. Rest (POST_conversations t f) \<notin> set rest1 \<union> set rest2)
         \<and> (if length m > 50 then title' = take 50 m @ lit ''...'' else title' = m)"
proof -
  let ?T = "take 50 m @ (if length m > 50 then lit ''...'' else [])"
  have T: "if length m > 50 then ?T = take 50 m @ lit ''...'' else ?T = m" by simp
  show ?thesis
  proof (cases "post_conversations api (rest_count tr) ?T m")
    case (Inl e)
    have "snd (sendMessage api u m c ctx tr) = tr @ Rest (POST_conversations ?T m) # []"
      by (simp add: sendMessage_def create_if_new_failed[OF new Inl])
    moreover have "snd (sendMessageWithFiles api u m files c tr)
        = tr @ Rest (POST_conversations ?T m) # []"
      by (simp add: sendMessageWithFiles_def create_if_new_failed[OF new Inl])
    ultimately show ?thesis using T by fastforce
  next
    case (Inr conv)
    have "\<exists>rest1. snd (sendMessage api u m c ctx tr) = tr @ Rest (POST_conversations ?T m) # rest1
             \<and> (\<forall>t f. Rest (POST_conversations t f) \<notin> set rest1)"
      by (auto simp: sendMessage_def create_if_new_created[OF new Inr]
                     sendMessageToConversation_def Let_def split: sum.splits)
    moreover have "\<exists>rest2. snd (sendMessageWithFiles api u m files c tr)
               = tr @ Rest (POST_conversations ?T m) # rest2
             \<and> (\<forall>t f. Rest (POST_conversations t f) \<notin> set rest2)"
      by (auto simp: sendMessageWithFiles_def create_if_new_created[OF new Inr]
                     Let_def split: sum.splits)
    ultimately show ?thesis using T by (metis Un_iff)
  qed
qed

text \<open>
  A message of 51 letters \<open>a\<close> gets the title of 50 letters and \<open>'...'\<close>;
  \<open>'hello'\<close> is its own title.
\<close>

theorem auto_created_title_witness:
  "snd (sendMessage offline_backend None (replicate 51 97) (Some (lit ''new'')) None [])
     = [Rest (POST_conversations (replicate 50 97 @ lit ''...'') (replicate 51 97))]
   \<and> snd (sendMessageWithFiles offline_backend None (lit ''hello'') [] None [])
     = [Rest (POST_conversations (lit ''hello'') (lit ''hello''))]"
proof -
  have n1: "\<not> truthy (Some (lit ''new'')) \<or> Some (lit ''new'') = Some (lit ''new'')" by simp
  have n2: "\<not> truthy None \<or> None = Some (lit ''new'')" by (simp add: truthy_def)
  have l: "length (replicate 51 (97 :: 16 word)) > 50" "\<not> length (lit ''hello'') > 50"
    by (simp_all add: lit_def)
  have tk: "take 50 (replicate 51 (97 :: 16 word)) = replicate 50 97" by simp
  have a: "length (snd (sendMessage offline_backend None (replicate 51 97) (Some (lit ''new'')) None [])) = 1"
    by (simp add: sendMessage_def create_if_new_def createConversation_def offline_backend_def)
  have b: "length (snd (sendMessageWithFiles offline_backend None (lit ''hello'') [] None [])) = 1"
    by (simp add: sendMessageWithFiles_def create_if_new_def createConversation_def offline_backend_def truthy_def)
  from auto_created_title[OF n1, of offline_backend None "replicate 51 97" None "[]" "[]"] a l tk
  have 1: "snd (sendMessage offline_backend None (replicate 51 97) (Some (lit ''new'')) None [])
     = [Rest (POST_conversations (replicate 50 97 @ lit ''...'') (replicate 51 97))]"
    by auto
  from auto_created_title[OF n2, of offline_backend None "lit ''hello''" None "[]" "[]"] b l
  have 2: "snd (sendMessageWithFiles offline_backend None (lit ''hello'') [] None [])
     = [Rest (POST_conversations (lit ''hello'') (lit ''hello''))]"
    by auto
  from 1 2 show ?thesis by simp
qed

subsection \<open>Chat wrapper\<close>

lemma handleSendMessage_start_idle:
  "\<not> busy' \<Longrightarrow>
   handleSendMessage_start props busy' text' context st =
     st\<lparr>busy := True, error := None,
        messages := messages st @ [plain_message user text'],
        outgoing_calls := outgoing_calls st
           @ [Service_sendMessage text' (conversationId_prop props) context]\<rparr>"
  by (simp add: handleSendMessage_start_def)

lemma handleSendMessage_settle_failed:
  "handleSendMessage_settle props on_new_page (Inl e) st =
     st\<lparr>messages := butlast (messages st) @ [plain_message assistant
          (lit ''Sorry, I encountered an error processing your message. Please try again.'')],
        error := Some (if message e \<noteq> [] then message e else lit ''Failed to send message''),
        busy := False\<rparr>"
  by (simp add: handleSendMessage_settle_def Let_def)

lemma wrapper_events_append:
  "wrapper_events props on_new_page (evs @ evs') st =
     wrapper_events props on_new_page evs' (wrapper_events props on_new_page evs st)"
  by (induction props on_new_page evs st rule: wrapper_events.induct) simp_all

lemma calls_while_busy_ignored:
  "\<forall>ev \<in> set others. \<exists>t c. ev = Called True t c \<Longrightarrow>
   wrapper_events props on_new_page others st = st"
  by (induction others) (auto simp: handleSendMessage_start_def)

text \<open>
  C6 (optimistic rollback). In any state \<open>st\<close> of the wrapper, with any message list,
  \<open>handleSendMessage\<close> is called by a handler that captured \<open>busy = false\<close>. Up to
  its \<open>await\<close> it appends the user's message to the list, sets \<open>busy\<close> and calls
  \<open>chatService.sendMessage\<close> once. While that send is in flight the handler may be
  called again by the renders that see \<open>busy = true\<close>; those calls are ignored. Then
  the send fails. The state is then the old one with exactly one message appended, the
  assistant's error text, in place of the user's message: the list is one longer than
  before the call, the error is set, the wrapper is idle again and no other call was
  made. The rollback itself removes the last message of whatever list the wrapper has
  when the send fails and appends the error text.
\<close>

theorem optimistic_rollback:
  assumes idle: "\<not> busy'"
      and in_flight: "\<forall>ev \<in> set others. \<exists>t c. ev = Called True t c"
      and failed: "sendMessage api u text' (conversationId_prop props) context tr = (Inl e, tr1)"
  shows "messages (handleSendMessage_start props busy' text' context st)
           = messages st @ [plain_message user text']
       \<and> outgoing_calls (handleSendMessage_start props busy' text' context st)
           = outgoing_calls st @ [Service_sendMessage text' (conversationId_prop props) context]
       \<and> busy (handleSendMessage_start props busy' text' context st)
       \<and> wrapper_events props on_new_page
             (Called busy' text' context # others
                @ [Settled (fst (sendMessage api u text' (conversationId_prop props) context tr))])
             st
           = st\<lparr>messages := messages st @ [plain_message assistant
                  (lit ''Sorry, I encountered an error processing your message. Please try again.'')],
                error := Some (if message e \<noteq> [] then message e
                               else lit ''Failed to send message''),
                busy := False,
                outgoing_calls := outgoing_calls st
                  @ [Service_sendMessage text' (conversationId_prop props) context]\<rparr>
       \<and> length (messages (wrapper_events props on_new_page
             (Called busy' text' context # others
                @ [Settled (fst (sendMessage api u text' (conversationId_prop props) context tr))])
             st))
           = length (messages st) + 1
       \<and> (\<forall>st2. messages (handleSendMessage_settle props on_new_page (Inl e) st2)
             = butlast (messages st2) @ [plain_message assistant
                 (lit ''Sorry, I encountered an error processing your message. Please try again.'')])"
proof -
  let ?start = "handleSendMessage_start props busy' text' context st"
  let ?events = "Called busy' text' context # others
      @ [Settled (fst (sendMessage api u text' (conversationId_prop props) context tr))]"
  have start: "?start =
     st\<lparr>busy := True, error := None,
        messages := messages st @ [plain_message user text'],
        outgoing_calls := outgoing_calls st
           @ [Service_sendMessage text' (conversationId_prop props) context]\<rparr>"
    by (rule handleSendMessage_start_idle[OF idle])
  have run: "wrapper_events props on_new_page ?events st
      = handleSendMessage_settle props on_new_page (Inl e) ?start"
    by (simp add: wrapper_events_append calls_while_busy_ignored[OF in_flight] failed)
  have final: "wrapper_events props on_new_page ?events st
      = st\<lparr>messages := messages st @ [plain_message assistant
                  (lit ''Sorry, I encountered an error processing your message. Please try again.'')],
                error := Some (if message e \<noteq> [] then message e
                               else lit ''Failed to send message''),
                busy := False,
                outgoing_calls := outgoing_calls st
                  @ [Service_sendMessage text' (conversationId_prop props) context]\<rparr>"
    unfolding run handleSendMessage_settle_failed start by simp
  have len: "length (messages (wrapper_events props on_new_page ?events st))
      = length (messages st) + 1"
    unfolding final by simp
  have settle: "\<forall>st2. messages (handleSendMessage_settle props on_new_page (Inl e) st2)
             = butlast (messages st2) @ [plain_message assistant
                 (lit ''Sorry, I encountered an error processing your message. Please try again.'')]"
    by (simp add: handleSendMessage_settle_failed)
  have s1: "messages ?start = messages st @ [plain_message user text']"
    and s2: "outgoing_calls ?start
      = outgoing_calls st @ [Service_sendMessage text' (conversationId_prop props) context]"
    and s3: "busy ?start"
    unfolding start by simp_all
  from s1 s2 s3 final len settle show ?thesis by blast
qed

text \<open>
  What the rollback does when a handler that captured an older \<open>busy = false\<close> is
  called while a send is in flight, so that two sends overlap, and both fail: the
  first rollback removes the second user message, the second removes the first error
  text, and the first user message stays.
\<close>

lemma overlapping_sends:
  "messages (wrapper_events
       \<lparr>conversationId_prop = Some (lit ''c1''), onConversationCreated_prop = False,
        onConversationUpdated_prop = False, initialMessage = None, initialContext = None\<rparr>
       False
       [Called False (lit ''a'') None, Called False (lit ''b'') None,
        Settled (Inl network_error), Settled (Inl network_error)]
       (mount [plain_message user (lit ''hi'')]))
   = [plain_message user (lit ''hi''), plain_message user (lit ''a''),
      plain_message assistant
        (lit ''Sorry, I encountered an error processing your message. Please try again.'')]"
  by (simp add: handleSendMessage_start_def handleSendMessage_settle_failed mount_def)

lemma effect_latched:
  "initialMessageProcessed st \<Longrightarrow> initialMessage_effect props busy' st = st"
  by (simp add: initialMessage_effect_def)

lemma effects_latched:
  "initialMessageProcessed st \<Longrightarrow> initialMessage_effects props runs st = st"
  by (induction runs) (simp_all add: effect_latched)

lemma effect_sets_latch_or_nothing:
  "initialMessage_effect props busy' st = st
   \<or> (initialMessageProcessed (initialMessage_effect props busy' st)
      \<and> outgoing_calls (initialMessage_effect props busy' st)
          = outgoing_calls st @ [Service_sendMessage (as_string (initialMessage props))
                                   (conversationId_prop props) (initialContext props)])"
  by (simp add: initialMessage_effect_def handleSendMessage_start_def)

lemma effects_at_most_one:
  "length (outgoing_calls (initialMessage_effects props runs st))
     \<le> length (outgoing_calls st) + 1"
proof (induction runs arbitrary: st)
  case Nil
  then show ?case by simp
next
  case (Cons b runs)
  from effect_sets_latch_or_nothing[of props b st] show ?case
  proof
    assume "initialMessage_effect props b st = st"
    with Cons.IH[of st] show ?thesis by simp
  next
    assume a: "initialMessageProcessed (initialMessage_effect props b st)
      \<and> outgoing_calls (initialMessage_effect props b st)
          = outgoing_calls st @ [Service_sendMessage (as_string (initialMessage props))
                                   (conversationId_prop props) (initialContext props)]"
    then show ?thesis by (simp add: effects_latched)
  qed
qed

text \<open>
  C7 (one-shot initial send), as amended. From mount on, however often the effect on
  \<open>initialMessage\<close> runs and whatever \<open>busy\<close> each run captured, it calls
  \<open>chatService.sendMessage\<close> at most once. When \<open>initialMessage\<close> is a non-empty
  string and the first run is the mount render's (\<open>busy\<close> is \<open>False\<close>), it calls it
  exactly once, with the initial message, whether or not the effect runs again. When
  \<open>initialMessage\<close> is null or the empty string, it never calls it.
\<close>

theorem one_shot_initial_send:
  "length (outgoing_calls (initialMessage_effects props runs (mount initialMessages))) \<le> 1
 \<and> (\<forall>m. initialMessage props = Some m \<and> m \<noteq> [] \<longrightarrow>
       outgoing_calls (initialMessage_effects props (False # runs) (mount initialMessages))
         = [Service_sendMessage m (conversationId_prop props) (initialContext props)])
 \<and> (\<not> truthy (initialMessage props) \<longrightarrow>
       outgoing_calls (initialMessage_effects props runs (mount initialMessages)) = [])"
proof (intro conjI allI impI)
  show "length (outgoing_calls (initialMessage_effects props runs (mount initialMessages))) \<le> 1"
    using effects_at_most_one[of props runs "mount initialMessages"] by (simp add: mount_def)
next
  fix m assume m: "initialMessage props = Some m \<and> m \<noteq> []"
  let ?st = "initialMessage_effect props False (mount initialMessages)"
  from m have "initialMessageProcessed ?st"
    and "outgoing_calls ?st
          = [Service_sendMessage m (conversationId_prop props) (initialContext props)]"
    by (simp_all add: initialMessage_effect_def handleSendMessage_start_def mount_def
                      truthy_def as_string_def)
  then show "outgoing_calls (initialMessage_effects props (False # runs) (mount initialMessages))
         = [Service_sendMessage m (conversationId_prop props) (initialContext props)]"
    by (simp add: effects_latched)
next
  assume f: "\<not> truthy (initialMessage props)"
  have "initialMessage_effects props runs st = st" for st
    using f by (induction runs) (simp_all add: initialMessage_effect_def)
  then show "outgoing_calls (initialMessage_effects props runs (mount initialMessages)) = []"
    by (simp add: mount_def)
qed

text \<open>
  \<open>initialMessage\<close> is the empty string, which is not null: the effect runs twice
  and nothing is sent.
\<close>

theorem one_shot_initial_send_counterexample:
  "outgoing_calls
     (initialMessage_effects
        \<lparr>conversationId_prop = None, onConversationCreated_prop = False,
         onConversationUpdated_prop = False, initialMessage = Some [],
         initialContext = None\<rparr>
        [False, False] (mount []))
   = []"
  by (simp add: initialMessage_effect_def truthy_def mount_def)

text \<open>
  \<open>initialMessage\<close> is \<open>'hello'\<close> and the mount effect runs twice: one send.
\<close>

theorem one_shot_initial_send_witness:
  "outgoing_calls
     (initialMessage_effects
        \<lparr>conversationId_prop = None, onConversationCreated_prop = False,
         onConversationUpdated_prop = False, initialMessage = Some (lit ''hello''),
         initialContext = None\<rparr>
        [False, False] (mount []))
   = [Service_sendMessage (lit ''hello'') None None]"
proof -
  have ne: "lit ''hello'' \<noteq> []" by (simp add: lit_def)
  from one_shot_initial_send[where props = "\<lparr>conversationId_prop = None, onConversationCreated_prop = False,
         onConversationUpdated_prop = False, initialMessage = Some (lit ''hello''),
         initialContext = None\<rparr>" and runs = "[False]" and initialMessages = "[]"] ne
  show ?thesis by simp
qed

text \<open>
  A wrapper with two messages sends \<open>'hello'\<close> to conversation \<open>c1\<close> while the
  backend rejects every request; the handler is called once more while the send is in
  flight. Three messages afterwards, the last one the error text, and one call of the
  service.
\<close>

theorem optimistic_rollback_witness:
  "wrapper_events
       \<lparr>conversationId_prop = Some (lit ''c1''), onConversationCreated_prop = False,
        onConversationUpdated_prop = False, initialMessage = None, initialContext = None\<rparr>
       False
       [Called False (lit ''hello'') None, Called True (lit ''again'') None,
        Settled (fst (sendMessage offline_backend None (lit ''hello'') (Some (lit ''c1'')) None []))]
       (mount [plain_message user (lit ''hi''), plain_message assistant (lit ''ok'')])
   = \<lparr>messages = [plain_message user (lit ''hi''), plain_message assistant (lit ''ok''),
         plain_message assistant
           (lit ''Sorry, I encountered an error processing your message. Please try again.'')],
      busy = False, error = Some (lit ''Network Error''), initialMessageProcessed = False,
      outgoing_calls = [Service_sendMessage (lit ''hello'') (Some (lit ''c1'')) None]\<rparr>"
  (is "wrapper_events ?props _ _ ?st = _")
proof -
  have idle: "\<not> False" by simp
  have in_flight: "\<forall>ev \<in> set [Called True (lit ''again'') None]. \<exists>t c. ev = Called True t c"
    by simp
  have failed: "sendMessage offline_backend None (lit ''hello'') (conversationId_prop ?props) None []
      = (Inl network_error, [Rest (POST_messages (lit ''c1'') (lit ''hello'') None None)])"
    by (simp add: sendMessage_def create_if_new_def sendMessageToConversation_def
                  offline_backend_def truthy_def as_string_def lit_def)
  have msg: "message network_error = lit ''Network Error''" "lit ''Network Error'' \<noteq> []"
    by (simp_all add: network_error_def lit_def)
  from optimistic_rollback[OF idle in_flight failed, where st = ?st and on_new_page = False]
  show ?thesis using msg by (simp add: mount_def)
qed

subsection \<open>The display transform\<close>

lemma message_at_Some:
  "message_at s a = Some m \<longleftrightarrow> a < length s \<and> s ! a = Message_cell m"
  by (auto simp: message_at_def lookup_def split: cell.splits)

lemma display_at_Some:
  "display_at s a = Some d \<longleftrightarrow> a < length s \<and> s ! a = Display_cell d"
  by (auto simp: display_at_def lookup_def split: cell.splits)

lemma those_map_Some: "those (map Some xs) = Some xs"
  by (induction xs) simp_all

lemma those_eq_Some_map:
  "those (map f xs) = Some ys \<longleftrightarrow> map f xs = map Some ys"
proof (induction xs arbitrary: ys)
  case Nil
  then show ?case by auto
next
  case (Cons x xs)
  then show ?case by (cases "f x"; cases ys) (auto split: option.splits)
qed

lemma upt_shift: "(acc @ [n]) @ [Suc n ..< Suc n + k] = acc @ [n ..< n + Suc k]"
proof -
  have "[n ..< n + Suc k] = n # [Suc n ..< n + Suc k]"
    by (rule upt_conv_Cons) simp
  then show ?thesis by (simp del: upt_Suc)
qed

lemma map_callback_result:
  assumes "out < length s" and "s ! out = Array_cell acc"
      and "map (message_at s) as = map Some ms"
  shows "map_callback as out s =
     Some (s[out := Array_cell (acc @ [length s ..< length s + length as])]
             @ map (\<lambda>m. Display_cell (displayMessage m)) ms)"
  using assms
proof (induction as arbitrary: s acc ms)
  case Nil
  from Nil.prems(2) have "s[out := Array_cell acc] = s"
    by (metis list_update_id)
  with Nil.prems(3) show ?case by simp
next
  case (Cons a as)
  from Cons.prems(3) obtain m ms' where ms: "ms = m # ms'"
    and a: "message_at s a = Some m" and rest: "map (message_at s) as = map Some ms'"
    by (cases ms) auto
  let ?d = "Display_cell (displayMessage m)"
  let ?s2 = "(s @ [?d])[out := Array_cell (acc @ [length s])]"
  from a have la: "lookup s a = Some (Message_cell m)"
    by (simp add: message_at_Some lookup_def)
  have push: "array_push out (length s) (s @ [?d]) = ?s2"
    using Cons.prems(1,2) by (simp add: array_push_def lookup_def nth_append)
  have step: "map_callback (a # as) out s = map_callback as out ?s2"
    by (simp add: la new_cell_def push)
  have o2: "out < length ?s2" using Cons.prems(1) by simp
  have c2: "?s2 ! out = Array_cell (acc @ [length s])" using Cons.prems(1) by simp
  have same: "message_at ?s2 x = message_at s x" if "x \<in> set as" for x
  proof -
    from rest that obtain m' where "message_at s x = Some m'"
      by (metis (no_types, lifting) imageE image_eqI list.set_map)
    then have x: "x < length s" "s ! x = Message_cell m'" by (simp_all add: message_at_Some)
    with Cons.prems(2) have "x \<noteq> out" by auto
    with x show ?thesis
      by (simp add: message_at_def lookup_def nth_append)
  qed
  have "map (message_at ?s2) as = map (message_at s) as"
    by (rule map_cong[OF refl]) (rule same)
  with rest have r2: "map (message_at ?s2) as = map Some ms'" by simp
  have len2: "length ?s2 = Suc (length s)" by simp
  show ?case
    unfolding step Cons.IH[OF o2 c2 r2] ms len2 upt_shift
    using Cons.prems(1) by (simp add: list_update_append1 del: upt_Suc)
qed

lemma read_display_result:
  assumes "arr < length s" and "s ! arr = Array_cell [n ..< n + length ds]"
      and "\<forall>i < length ds. n + i < length s \<and> s ! (n + i) = Display_cell (ds ! i)"
  shows "read_display s arr = Some ds"
proof -
  have "map (display_at s) [n ..< n + length ds] = map Some ds"
  proof (rule nth_equalityI)
    show "length (map (display_at s) [n ..< n + length ds]) = length (map Some ds)"
      by simp
  next
    fix i assume "i < length (map (display_at s) [n ..< n + length ds])"
    then have i: "i < length ds" by simp
    with assms(3) have "display_at s (n + i) = Some (ds ! i)"
      by (simp add: display_at_Some)
    with i show "map (display_at s) [n ..< n + length ds] ! i = map Some ds ! i"
      by simp
  qed
  then show ?thesis
    using assms(1,2) by (simp add: read_display_def lookup_def those_eq_Some_map)
qed

lemma transform_result:
  assumes "read_messages s messages' = Some ms"
  shows "transformMessagesToDisplay messages' s =
     Some (length s,
           s @ Array_cell [Suc (length s) ..< Suc (length s) + length ms]
             # map (\<lambda>m. Display_cell (displayMessage m)) ms)"
proof -
  from assms obtain as where arr: "lookup s messages' = Some (Array_cell as)"
    and els: "map (message_at s) as = map Some ms"
    by (auto simp: read_messages_def those_eq_Some_map split: option.splits cell.splits)
  from els have len: "length as = length ms" by (metis length_map)
  let ?s1 = "s @ [Array_cell []]"
  have els1: "map (message_at ?s1) as = map Some ms"
  proof -
    have "message_at ?s1 x = message_at s x" if "x \<in> set as" for x
    proof -
      from els that obtain m' where "message_at s x = Some m'"
        by (metis (no_types, lifting) imageE image_eqI list.set_map)
      then have "x < length s" by (simp add: message_at_Some)
      then show ?thesis by (simp add: message_at_def lookup_def nth_append)
    qed
    then have "map (message_at ?s1) as = map (message_at s) as"
      by (intro map_cong[OF refl])
    with els show ?thesis by simp
  qed
  have "map_callback as (length s) ?s1 =
     Some (?s1[length s := Array_cell ([] @ [length ?s1 ..< length ?s1 + length as])]
             @ map (\<lambda>m. Display_cell (displayMessage m)) ms)"
    by (rule map_callback_result[OF _ _ els1]) simp_all
  then show ?thesis
    by (simp add: transformMessagesToDisplay_def arr new_cell_def len)
qed

lemma read_messages_append:
  assumes "read_messages s arr = Some ms"
  shows "read_messages (s @ t) arr = Some ms"
proof -
  from assms obtain as where arr: "arr < length s" "s ! arr = Array_cell as"
    and els: "map (message_at s) as = map Some ms"
    by (auto simp: read_messages_def lookup_def those_eq_Some_map
             split: if_splits cell.splits)
  have "message_at (s @ t) x = message_at s x" if "x \<in> set as" for x
  proof -
    from els that obtain m' where "message_at s x = Some m'"
      by (metis (no_types, lifting) imageE image_eqI list.set_map)
    then have "x < length s" by (simp add: message_at_Some)
    then show ?thesis by (simp add: message_at_def lookup_def nth_append)
  qed
  then have "map (message_at (s @ t)) as = map (message_at s) as"
    by (intro map_cong[OF refl])
  with els arr show ?thesis
    by (simp add: read_messages_def lookup_def nth_append those_eq_Some_map)
qed

lemma read_display_append:
  assumes "read_display s arr = Some ds"
  shows "read_display (s @ t) arr = Some ds"
proof -
  from assms obtain as where arr: "arr < length s" "s ! arr = Array_cell as"
    and els: "map (display_at s) as = map Some ds"
    by (auto simp: read_display_def lookup_def those_eq_Some_map
             split: if_splits cell.splits)
  have "display_at (s @ t) x = display_at s x" if "x \<in> set as" for x
  proof -
    from els that obtain d' where "display_at s x = Some d'"
      by (metis (no_types, lifting) imageE image_eqI list.set_map)
    then have "x < length s" by (simp add: display_at_Some)
    then show ?thesis by (simp add: display_at_def lookup_def nth_append)
  qed
  then have "map (display_at (s @ t)) as = map (display_at s) as"
    by (intro map_cong[OF refl])
  with els arr show ?thesis
    by (simp add: read_display_def lookup_def nth_append those_eq_Some_map)
qed

lemma read_display_fresh:
  "read_display
     (s @ Array_cell [Suc (length s) ..< Suc (length s) + length ms]
        # map (\<lambda>m. Display_cell (displayMessage m)) ms)
     (length s)
   = Some (map displayMessage ms)"
proof -
  let ?s1 = "s @ Array_cell [Suc (length s) ..< Suc (length s) + length ms]
        # map (\<lambda>m. Display_cell (displayMessage m)) ms"
  have "read_display ?s1 (length s) = Some (map displayMessage ms)"
  proof (rule read_display_result[where n = "Suc (length s)"])
    show "length s < length ?s1" by simp
    show "?s1 ! length s
        = Array_cell [Suc (length s) ..< Suc (length s) + length (map displayMessage ms)]"
      by (simp add: nth_append del: upt_Suc)
    show "\<forall>i < length (map displayMessage ms).
        Suc (length s) + i < length ?s1
        \<and> ?s1 ! (Suc (length s) + i) = Display_cell (map displayMessage ms ! i)"
      by (simp add: nth_append del: upt_Suc)
  qed
  then show ?thesis .
qed

text \<open>
  C9 (transform determinism). The store holds an array of messages at \<open>messages'\<close>,
  with the values \<open>ms\<close>. Then \<open>transformMessagesToDisplay\<close> returns a result, and so
  does a second call on the same array in the store the first call left. Both results
  have the same value, the display message of each message in order; the first result
  still has that value after the second call. Each call leaves every cell that existed
  before it as it was, so all it does is allocate its result, and the input array
  still has the values \<open>ms\<close> after both calls.
\<close>

theorem transform_determinism:
  assumes input: "read_messages s messages' = Some ms"
  shows "\<exists>out1 s1 out2 s2.
       transformMessagesToDisplay messages' s = Some (out1, s1)
     \<and> transformMessagesToDisplay messages' s1 = Some (out2, s2)
     \<and> read_display s1 out1 = Some (map displayMessage ms)
     \<and> read_display s2 out2 = Some (map displayMessage ms)
     \<and> read_display s2 out1 = Some (map displayMessage ms)
     \<and> take (length s) s1 = s \<and> take (length s1) s2 = s1 \<and> take (length s) s2 = s
     \<and> read_messages s1 messages' = Some ms
     \<and> read_messages s2 messages' = Some ms"
proof -
  let ?new = "\<lambda>s. Array_cell [Suc (length s) ..< Suc (length s) + length ms]
                 # map (\<lambda>m. Display_cell (displayMessage m)) ms"
  let ?s1 = "s @ ?new s"
  let ?s2 = "?s1 @ ?new ?s1"
  have run1: "transformMessagesToDisplay messages' s = Some (length s, ?s1)"
    by (rule transform_result[OF input])
  have in1: "read_messages ?s1 messages' = Some ms"
    by (rule read_messages_append[OF input])
  have run2: "transformMessagesToDisplay messages' ?s1 = Some (length ?s1, ?s2)"
    by (rule transform_result[OF in1])
  have in2: "read_messages ?s2 messages' = Some ms"
    by (rule read_messages_append[OF in1])
  have d1: "read_display ?s1 (length s) = Some (map displayMessage ms)"
    by (rule read_display_fresh)
  have d2: "read_display ?s2 (length ?s1) = Some (map displayMessage ms)"
    by (rule read_display_fresh)
  have d12: "read_display ?s2 (length s) = Some (map displayMessage ms)"
    by (rule read_display_append[OF d1])
  have t1: "take (length s) ?s1 = s" by simp
  have t2: "take (length ?s1) ?s2 = ?s1" by simp
  have t3: "take (length s) ?s2 = s" by simp
  from run1 run2 d1 d2 d12 t1 t2 t3 in1 in2 show ?thesis by blast
qed

text \<open>
  The example store: both calls return the display messages of the two messages, the
  assistant's with its blocks and the user's without, and the three cells of the input
  are unchanged.
\<close>

theorem transform_determinism_witness:
  "\<exists>out1 s1 out2 s2.
       transformMessagesToDisplay 2 example_store = Some (out1, s1)
     \<and> transformMessagesToDisplay 2 s1 = Some (out2, s2)
     \<and> read_display s1 out1
         = Some [displayMessage example_user_message, displayMessage example_assistant_message]
     \<and> read_display s2 out2 = read_display s1 out1
     \<and> take 3 s2 = example_store
     \<and> blocks (displayMessage example_user_message) = None
     \<and> blocks (displayMessage example_assistant_message) = Some (JArr [JStr (lit ''table'')])"
proof -
  have input: "read_messages example_store 2
      = Some [example_user_message, example_assistant_message]"
    by (simp add: read_messages_def lookup_def message_at_def example_store_def)
  have b1: "blocks (displayMessage example_user_message) = None"
    by (simp add: displayMessage_def example_user_message_def)
  have b2: "blocks (displayMessage example_assistant_message)
      = Some (JArr [JStr (lit ''table'')])"
    by (simp add: displayMessage_def example_assistant_message_def response_data_blocks_def)
  from transform_determinism[OF input] obtain out1 s1 out2 s2 where
      "transformMessagesToDisplay 2 example_store = Some (out1, s1)"
      "transformMessagesToDisplay 2 s1 = Some (out2, s2)"
      "read_display s1 out1
         = Some (map displayMessage [example_user_message, example_assistant_message])"
      "read_display s2 out2
         = Some (map displayMessage [example_user_message, example_assistant_message])"
      "take (length example_store) s2 = example_store"
    by blast
  moreover have "length example_store = 3" by (simp add: example_store_def)
  ultimately show ?thesis using b1 b2 by auto
qed

end
